theory Spec2Isabelle
  imports Main "HOL-Library.Sublist" "HOL-Library.AList"
begin

section \<open>Python values and listing dictionaries\<close>

text \<open>
  The engine of huizen-zoeker passes property listings around as Python dictionaries.
  A listing is modelled as a record with one field per key the engine reads; a key can be
  missing from the dictionary, present with the value \<open>None\<close> (the scrapers'
  \<open>clean_price\<close> and \<open>clean_area\<close> return \<open>None\<close> for unparsable text), or present
  with a value of the column's type. The field \<open>l_other\<close> holds the remaining keys with
  their values, in insertion order and without repetition, as a dictionary does.
  Characters are the code points 0..255.
\<close>

datatype 'a pyfield = Absent | PyNone | Py 'a

text \<open>
  The values of the core fields are integers, strings or \<open>None\<close>. Other keys of a listing
  hold any JSON-like value; \<open>JsonV d\<close> stands for the text \<open>json.dumps(d)\<close>, which
  \<open>json.loads\<close> reads back as \<open>d\<close>.
\<close>

datatype scalar = IntS int | StrS string | NoneS

datatype pyval =
    Scalar scalar
  | ListV "pyval list"
  | DictV "(string \<times> pyval) list"
  | JsonV "(string \<times> pyval) list"

datatype pyexn = KeyError string | TypeError | AttributeError

record listing =
  l_id :: "string option"
  l_address :: "string pyfield"
  l_city :: "string pyfield"
  l_price :: "int pyfield"
  l_area :: "int pyfield"
  l_rooms :: "int pyfield"
  l_property_type :: "string pyfield"
  l_url :: "string pyfield"
  l_source :: "string option"
  l_other :: "(string \<times> pyval) list"

text \<open>\<open>d.get(key, default)\<close>: the default for a missing key, \<open>None\<close> for a stored \<open>None\<close>.\<close>

fun dict_get :: "'a pyfield \<Rightarrow> 'a \<Rightarrow> 'a option" where
  "dict_get Absent d = Some d"
| "dict_get PyNone d = None"
| "dict_get (Py v) d = Some v"

section \<open>Criteria filter (property\_filter.py)\<close>

record PropertyFilter =
  min_price :: int
  max_price :: int
  min_area :: int
  cities :: "string list"
  property_types :: "string list"

text \<open>
  \<open>PropertyFilter.__init__\<close>: an argument that is not passed takes the default of the
  signature (0, 10000000, 0, None, None); \<open>cities or []\<close> turns \<open>None\<close> into the empty list.
\<close>

definition PropertyFilter_init ::
  "int option \<Rightarrow> int option \<Rightarrow> int option \<Rightarrow> string list option \<Rightarrow> string list option
    \<Rightarrow> PropertyFilter" where
  "PropertyFilter_init mn mx ma cs ts =
     \<lparr> min_price = (case mn of None \<Rightarrow> 0 | Some v \<Rightarrow> v),
       max_price = (case mx of None \<Rightarrow> 10000000 | Some v \<Rightarrow> v),
       min_area = (case ma of None \<Rightarrow> 0 | Some v \<Rightarrow> v),
       cities = (case cs of None \<Rightarrow> [] | Some v \<Rightarrow> v),
       property_types = (case ts of None \<Rightarrow> [] | Some v \<Rightarrow> v) \<rparr>"

text \<open>\<open>str.lower()\<close> on the code points 0..255: A-Z, and the accented capitals 192..214, 216..222.\<close>

definition lower_char :: "char \<Rightarrow> char" where
  "lower_char c =
     (let n = (of_char c :: nat) in
      if (65 \<le> n \<and> n \<le> 90) \<or> (192 \<le> n \<and> n \<le> 214) \<or> (216 \<le> n \<and> n \<le> 222)
      then char_of (n + 32) else c)"

definition lower :: "string \<Rightarrow> string" where
  "lower s = map lower_char s"

text \<open>\<open>sub in s\<close> on strings: \<open>sub\<close> occurs in \<open>s\<close> as a contiguous block.\<close>

primrec str_in :: "string \<Rightarrow> string \<Rightarrow> bool" where
  "str_in sub [] = (sub = [])"
| "str_in sub (x # xs) = (take (length sub) (x # xs) = sub \<or> str_in sub xs)"

text \<open>
  \<open>matches\<close>, check by check in the order of the source. Comparing \<open>None\<close> with an
  integer raises TypeError, and \<open>None.lower()\<close> raises AttributeError; \<open>None not in types\<close>
  is just true.
\<close>

definition check_types :: "PropertyFilter \<Rightarrow> listing \<Rightarrow> pyexn + bool" where
  "check_types f pd =
     (if property_types f \<noteq> [] then
        (case dict_get (l_property_type pd) [] of
           None \<Rightarrow> Inr False
         | Some property_type \<Rightarrow>
             if property_type \<notin> set (property_types f) then Inr False else Inr True)
      else Inr True)"

definition check_city :: "PropertyFilter \<Rightarrow> listing \<Rightarrow> pyexn + bool" where
  "check_city f pd =
     (if cities f \<noteq> [] then
        (case dict_get (l_city pd) [] of
           None \<Rightarrow> Inl AttributeError
         | Some city \<Rightarrow>
             if \<not> list_ex (\<lambda>c. str_in (lower c) (lower city)) (cities f) then Inr False
             else check_types f pd)
      else check_types f pd)"

definition matches :: "PropertyFilter \<Rightarrow> listing \<Rightarrow> pyexn + bool" where
  "matches f pd =
     (case dict_get (l_price pd) 0 of
        None \<Rightarrow> Inl TypeError
      | Some price \<Rightarrow>
          if price < min_price f \<or> price > max_price f then Inr False
          else
            (case dict_get (l_area pd) 0 of
               None \<Rightarrow> Inl TypeError
             | Some area \<Rightarrow>
                 if area < min_area f then Inr False
                 else check_city f pd))"

section \<open>Entity store (property\_db.py)\<close>

text \<open>
  The two tables of the SQLite database. Rows are kept in insertion order. The columns
  declared NOT NULL hold a value of their type; \<open>area\<close>, \<open>rooms\<close> and \<open>property_type\<close>
  may hold NULL. \<open>extra_data\<close> holds the dictionary whose JSON text the column stores.
  Integers are taken to fit the 64-bit INTEGER of SQLite. The primary key keeps the ids of
  the rows distinct: a row is only ever inserted after the SELECT has found none with its id.
\<close>

record prow =
  p_id :: string
  p_address :: string
  p_city :: string
  p_price :: int
  p_area :: "int option"
  p_rooms :: "int option"
  p_property_type :: "string option"
  p_url :: string
  p_source :: string
  p_first_seen :: string
  p_last_seen :: string
  p_last_updated :: string
  p_extra_data :: "(string \<times> pyval) list"
  p_active :: bool

record hrow =
  h_property_id :: string
  h_change_type :: string
  h_change_date :: string
  h_old_value :: "string option"
  h_new_value :: "string option"

record database =
  properties :: "prow list"
  property_history :: "hrow list"

datatype status = SNew | SUpdated | SUnchanged | SError

record change =
  c_field :: string
  c_old_value :: scalar
  c_new_value :: scalar

subsection \<open>\<open>str()\<close> of a core value\<close>

fun digits :: "nat \<Rightarrow> string" where
  "digits n = (if n < 10 then [''0123456789'' ! n] else digits (n div 10) @ [''0123456789'' ! (n mod 10)])"

declare digits.simps [simp del]

definition str_int :: "int \<Rightarrow> string" where
  "str_int i = (if i < 0 then CHR ''-'' # digits (nat (- i)) else digits (nat i))"

fun py_str :: "scalar \<Rightarrow> string" where
  "py_str (IntS i) = str_int i"
| "py_str (StrS s) = s"
| "py_str NoneS = ''None''"

subsection \<open>Dictionary views of a listing and of a stored row\<close>

definition core_fields :: "string list" where
  "core_fields = [''price'', ''area'', ''rooms'', ''property_type'', ''address'', ''city'']"

fun int_item :: "int pyfield \<Rightarrow> scalar option" where
  "int_item Absent = None"
| "int_item PyNone = Some NoneS"
| "int_item (Py n) = Some (IntS n)"

fun str_item :: "string pyfield \<Rightarrow> scalar option" where
  "str_item Absent = None"
| "str_item PyNone = Some NoneS"
| "str_item (Py s) = Some (StrS s)"

text \<open>\<open>property_data[field]\<close> for a core field; \<open>None\<close> when \<open>field in property_data\<close> is false.\<close>

definition listing_item :: "listing \<Rightarrow> string \<Rightarrow> scalar option" where
  "listing_item pd f =
     (if f = ''price'' then int_item (l_price pd)
      else if f = ''area'' then int_item (l_area pd)
      else if f = ''rooms'' then int_item (l_rooms pd)
      else if f = ''property_type'' then str_item (l_property_type pd)
      else if f = ''address'' then str_item (l_address pd)
      else if f = ''city'' then str_item (l_city pd)
      else None)"

fun null_int :: "int option \<Rightarrow> scalar" where
  "null_int None = NoneS"
| "null_int (Some n) = IntS n"

fun null_str :: "string option \<Rightarrow> scalar" where
  "null_str None = NoneS"
| "null_str (Some s) = StrS s"

text \<open>
  \<open>existing_data[field]\<close> for a core field. The source builds \<open>existing_data\<close> from the
  columns of the fetched row and then copies the parsed \<open>extra_data\<close> over it. The only
  writer of \<open>extra_data\<close> is \<open>add_or_update_property\<close>, whose dictionary comprehension
  leaves every table key out, so for the rows this store writes (\<open>clean_extra\<close> below) the
  copy never reaches a core field and \<open>existing_data[field]\<close> is the column.
\<close>

definition existing_item :: "prow \<Rightarrow> string \<Rightarrow> scalar" where
  "existing_item ex f =
     (if f = ''price'' then IntS (p_price ex)
      else if f = ''area'' then null_int (p_area ex)
      else if f = ''rooms'' then null_int (p_rooms ex)
      else if f = ''property_type'' then null_str (p_property_type ex)
      else if f = ''address'' then StrS (p_address ex)
      else StrS (p_city ex))"

text \<open>\<open>property_data[key]\<close>: KeyError for a missing key.\<close>

fun subscript :: "'a pyfield \<Rightarrow> string \<Rightarrow> pyexn + 'a option" where
  "subscript Absent k = Inl (KeyError k)"
| "subscript PyNone k = Inr None"
| "subscript (Py v) k = Inr (Some v)"

text \<open>The keys that the dictionary comprehension for \<open>extra_data\<close> leaves out.\<close>

definition table_keys :: "string list" where
  "table_keys = [''id'', ''address'', ''city'', ''price'', ''area'', ''rooms'', ''property_type'',
     ''url'', ''source'', ''first_seen'', ''last_seen'', ''last_updated'', ''active'']"

definition extra_of :: "listing \<Rightarrow> (string \<times> pyval) list" where
  "extra_of pd = filter (\<lambda>(k, v). k \<notin> set table_keys) (l_other pd)"

text \<open>No row holds a table key in its \<open>extra_data\<close>.\<close>

definition clean_extra :: "database \<Rightarrow> bool" where
  "clean_extra d =
     list_all (\<lambda>r. list_all (\<lambda>(k, v). k \<notin> set table_keys) (p_extra_data r)) (properties d)"

subsection \<open>\<open>add_or_update_property\<close>\<close>

text \<open>
  The loop over \<open>core_fields\<close>: a field is compared when the listing has the key (the
  fetched row has every column), and each difference is appended to \<open>changes\<close>.
\<close>

primrec detect_changes :: "prow \<Rightarrow> listing \<Rightarrow> string list \<Rightarrow> change list" where
  "detect_changes ex pd [] = []"
| "detect_changes ex pd (f # fs) =
     (case listing_item pd f of
        None \<Rightarrow> detect_changes ex pd fs
      | Some nv \<Rightarrow>
          if existing_item ex f \<noteq> nv
          then \<lparr> c_field = f, c_old_value = existing_item ex f, c_new_value = nv \<rparr>
                 # detect_changes ex pd fs
          else detect_changes ex pd fs)"

text \<open>The three kinds of history rows the store inserts.\<close>

definition changed_entry :: "string \<Rightarrow> string \<Rightarrow> change \<Rightarrow> hrow" where
  "changed_entry pid current_time c =
     \<lparr> h_property_id = pid, h_change_type = ''changed_'' @ c_field c,
       h_change_date = current_time,
       h_old_value = Some (py_str (c_old_value c)), h_new_value = Some (py_str (c_new_value c)) \<rparr>"

definition new_entry :: "string \<Rightarrow> string \<Rightarrow> string \<Rightarrow> string \<Rightarrow> hrow" where
  "new_entry pid current_time address city =
     \<lparr> h_property_id = pid, h_change_type = ''new_property'', h_change_date = current_time,
       h_old_value = None, h_new_value = Some (''New property: '' @ address @ '', '' @ city) \<rparr>"

definition inactive_entry :: "string \<Rightarrow> string \<Rightarrow> hrow" where
  "inactive_entry pid current_time =
     \<lparr> h_property_id = pid, h_change_type = ''property_inactive'', h_change_date = current_time,
       h_old_value = None, h_new_value = Some ''Property no longer available'' \<rparr>"

text \<open>\<open>UPDATE properties SET ... WHERE id = ?\<close>\<close>

definition update_where_id :: "string \<Rightarrow> (prow \<Rightarrow> prow) \<Rightarrow> prow list \<Rightarrow> prow list" where
  "update_where_id pid upd rows = map (\<lambda>r. if p_id r = pid then upd r else r) rows"

text \<open>
  The branch \<open>if has_changes\<close>. The parameters of the UPDATE are evaluated first, so a
  missing mandatory key raises KeyError; then a \<open>None\<close> for a NOT NULL column makes the
  statement raise sqlite3.IntegrityError, which the function catches and turns into the
  status \<open>error\<close>. In both cases nothing was committed: the history rows of the loop are
  rolled back when the connection is closed.
\<close>

definition update_existing ::
  "string \<Rightarrow> database \<Rightarrow> string \<Rightarrow> listing \<Rightarrow> change list
    \<Rightarrow> pyexn + (database \<times> status \<times> change list)" where
  "update_existing current_time d pid pd changes =
     (case subscript (l_address pd) ''address'' of Inl e \<Rightarrow> Inl e | Inr address \<Rightarrow>
     (case subscript (l_city pd) ''city'' of Inl e \<Rightarrow> Inl e | Inr city \<Rightarrow>
     (case subscript (l_price pd) ''price'' of Inl e \<Rightarrow> Inl e | Inr price \<Rightarrow>
     (case subscript (l_url pd) ''url'' of Inl e \<Rightarrow> Inl e | Inr url \<Rightarrow>
      (case (address, city, price, url) of
         (Some a, Some c, Some p, Some u) \<Rightarrow>
           Inr (d\<lparr> properties := update_where_id pid
                     (\<lambda>r. r\<lparr> p_address := a, p_city := c, p_price := p,
                            p_area := dict_get (l_area pd) 0,
                            p_rooms := dict_get (l_rooms pd) 0,
                            p_property_type := dict_get (l_property_type pd) ''Onbekend'',
                            p_url := u, p_last_seen := current_time,
                            p_last_updated := current_time,
                            p_extra_data := extra_of pd, p_active := True \<rparr>)
                     (properties d),
                   property_history :=
                     property_history d @ map (changed_entry pid current_time) changes \<rparr>,
                SUpdated, changes)
       | _ \<Rightarrow> Inr (d, SError, []))))))"

text \<open>The branch for a property that is not in the table yet.\<close>

definition insert_new ::
  "string \<Rightarrow> database \<Rightarrow> string \<Rightarrow> listing \<Rightarrow> pyexn + (database \<times> status \<times> change list)" where
  "insert_new current_time d pid pd =
     (case subscript (l_address pd) ''address'' of Inl e \<Rightarrow> Inl e | Inr address \<Rightarrow>
     (case subscript (l_city pd) ''city'' of Inl e \<Rightarrow> Inl e | Inr city \<Rightarrow>
     (case subscript (l_price pd) ''price'' of Inl e \<Rightarrow> Inl e | Inr price \<Rightarrow>
     (case subscript (l_url pd) ''url'' of Inl e \<Rightarrow> Inl e | Inr url \<Rightarrow>
     (case l_source pd of None \<Rightarrow> Inl (KeyError ''source'') | Some src \<Rightarrow>
      (case (address, city, price, url) of
         (Some a, Some c, Some p, Some u) \<Rightarrow>
           Inr (d\<lparr> properties := properties d @
                     [\<lparr> p_id = pid, p_address = a, p_city = c, p_price = p,
                        p_area = dict_get (l_area pd) 0,
                        p_rooms = dict_get (l_rooms pd) 0,
                        p_property_type = dict_get (l_property_type pd) ''Onbekend'',
                        p_url = u, p_source = src, p_first_seen = current_time,
                        p_last_seen = current_time, p_last_updated = current_time,
                        p_extra_data = extra_of pd, p_active = True \<rparr>],
                   property_history := property_history d @ [new_entry pid current_time a c] \<rparr>,
                SNew, [])
       | _ \<Rightarrow> Inr (d, SError, [])))))))"

text \<open>
  \<open>add_or_update_property(property_data)\<close>. \<open>fault\<close> says that the first statement of the
  call raises sqlite3.Error (a locked or unreadable database file), \<open>current_time\<close> is
  what \<open>datetime.now().isoformat()\<close> returns in this call. A KeyError is not caught by the
  function: it propagates to the caller (\<open>Inl\<close>), with the database as it was.
\<close>

definition add_or_update_property ::
  "bool \<Rightarrow> string \<Rightarrow> database \<Rightarrow> listing \<Rightarrow> pyexn + (database \<times> status \<times> change list)" where
  "add_or_update_property fault current_time d pd =
     (case l_id pd of
        None \<Rightarrow> Inl (KeyError ''id'')
      | Some pid \<Rightarrow>
          if fault then Inr (d, SError, [])
          else
            (case find (\<lambda>r. p_id r = pid) (properties d) of
               Some existing \<Rightarrow>
                 (let changes = detect_changes existing pd core_fields in
                  if changes \<noteq> [] then update_existing current_time d pid pd changes
                  else
                    Inr (d\<lparr> properties := update_where_id pid
                              (\<lambda>r. r\<lparr> p_last_seen := current_time, p_active := True \<rparr>)
                              (properties d) \<rparr>,
                         SUnchanged, []))
             | None \<Rightarrow> insert_new current_time d pid pd))"

subsection \<open>\<open>mark_inactive_properties\<close>\<close>

text \<open>
  The SELECT lists the active rows of the source whose id is \<open>NOT IN\<close> the placeholders;
  for an empty \<open>active_ids\<close> the source writes \<open>NOT IN ('')\<close>. The loop then updates each
  selected row and inserts its history row. A sqlite3.Error returns the empty list.
\<close>

definition deactivate_one :: "string \<Rightarrow> string \<Rightarrow> database \<Rightarrow> database" where
  "deactivate_one current_time inactive_id d =
     d\<lparr> properties := update_where_id inactive_id
            (\<lambda>r. r\<lparr> p_active := False, p_last_updated := current_time \<rparr>) (properties d),
        property_history := property_history d @ [inactive_entry inactive_id current_time] \<rparr>"

definition mark_inactive_properties ::
  "bool \<Rightarrow> string \<Rightarrow> database \<Rightarrow> string list \<Rightarrow> string \<Rightarrow> database \<times> string list" where
  "mark_inactive_properties fault current_time d active_ids source =
     (if fault then (d, [])
      else
        (let not_in = (if active_ids \<noteq> [] then active_ids else ['''']);
             inactive_ids = map p_id (filter
               (\<lambda>r. p_source r = source \<and> p_active r \<and> p_id r \<notin> set not_in) (properties d))
         in if inactive_ids \<noteq> []
            then (fold (deactivate_one current_time) inactive_ids d, inactive_ids)
            else (d, inactive_ids)))"

subsection \<open>\<open>get_property\<close>\<close>

text \<open>
  The row as a dictionary of its columns, updated with the parsed \<open>extra_data\<close>;
  \<open>None\<close> when the id is unknown or the SELECT raises sqlite3.Error.
\<close>

definition row_dict :: "prow \<Rightarrow> (string \<times> pyval) list" where
  "row_dict r =
     [(''id'', Scalar (StrS (p_id r))),
      (''address'', Scalar (StrS (p_address r))),
      (''city'', Scalar (StrS (p_city r))),
      (''price'', Scalar (IntS (p_price r))),
      (''area'', Scalar (null_int (p_area r))),
      (''rooms'', Scalar (null_int (p_rooms r))),
      (''property_type'', Scalar (null_str (p_property_type r))),
      (''url'', Scalar (StrS (p_url r))),
      (''source'', Scalar (StrS (p_source r))),
      (''first_seen'', Scalar (StrS (p_first_seen r))),
      (''last_seen'', Scalar (StrS (p_last_seen r))),
      (''last_updated'', Scalar (StrS (p_last_updated r))),
      (''extra_data'', JsonV (p_extra_data r)),
      (''active'', Scalar (IntS (if p_active r then 1 else 0)))]"

definition get_property :: "bool \<Rightarrow> database \<Rightarrow> string \<Rightarrow> (string \<rightharpoonup> pyval) option" where
  "get_property fault d property_id =
     (if fault then None
      else
        (case find (\<lambda>r. p_id r = property_id) (properties d) of
           Some r \<Rightarrow> Some (map_of (row_dict r) ++ map_of (p_extra_data r))
         | None \<Rightarrow> None))"

section \<open>Change detector (change\_detector.py)\<close>

text \<open>
  \<open>process_listings\<close> receives a list of dictionary objects and mutates them, so the
  listings live in an object store (\<open>nat \<Rightarrow> listing\<close>, addresses to objects) and the batch is
  a list of addresses. The environment gives, for the n-th call to the store within the
  batch, the reading of the clock and whether SQLite raises.
\<close>

record env =
  clock :: "nat \<Rightarrow> string"
  db_fault :: "nat \<Rightarrow> bool"

record batch_state =
  bs_heap :: "nat \<Rightarrow> listing"
  bs_db :: database
  bs_new :: "nat list"
  bs_updated :: "nat list"
  bs_active_ids :: "string list"

record batch_result =
  r_new :: "nat list"
  r_updated :: "nat list"
  r_removed :: "(string \<rightharpoonup> pyval) list"

text \<open>The list of change dictionaries, as the value stored under the key \<open>changes\<close>.\<close>

definition changes_val :: "change list \<Rightarrow> pyval" where
  "changes_val cs = ListV (map (\<lambda>c. DictV
     [(''field'', Scalar (StrS (c_field c))),
      (''old_value'', Scalar (c_old_value c)),
      (''new_value'', Scalar (c_new_value c))]) cs)"

text \<open>
  The body of the loop for the listing at address \<open>a\<close>, as the n-th store call. The
  assignment \<open>listing['source'] = source\<close> happens before the store can raise, so it
  survives in the state that comes with an exception.
\<close>

definition process_one ::
  "env \<Rightarrow> string \<Rightarrow> nat \<Rightarrow> batch_state \<Rightarrow> nat \<Rightarrow> (pyexn \<times> batch_state) + batch_state" where
  "process_one e source n st a =
     (let h1 = (bs_heap st)(a := (bs_heap st a)\<lparr> l_source := Some source \<rparr>);
          st1 = st\<lparr> bs_heap := h1 \<rparr>
      in case add_or_update_property (db_fault e n) (clock e n) (bs_db st) (h1 a) of
           Inl x \<Rightarrow> Inl (x, st1)
         | Inr (d', stat, changes) \<Rightarrow>
             (case l_id (h1 a) of
                None \<Rightarrow> Inl (KeyError ''id'', st1\<lparr> bs_db := d' \<rparr>)
              | Some pid \<Rightarrow>
                  (let st2 = st1\<lparr> bs_db := d', bs_active_ids := bs_active_ids st1 @ [pid] \<rparr>
                   in if stat = SNew then Inr (st2\<lparr> bs_new := bs_new st2 @ [a] \<rparr>)
                      else if stat = SUpdated \<and> changes \<noteq> [] then
                        Inr (st2\<lparr> bs_heap := h1(a := (h1 a)\<lparr> l_other :=
                                     AList.update ''changes'' (changes_val changes) (l_other (h1 a)) \<rparr>),
                                  bs_updated := bs_updated st2 @ [a] \<rparr>)
                      else Inr st2)))"

primrec ingest ::
  "env \<Rightarrow> string \<Rightarrow> nat \<Rightarrow> nat list \<Rightarrow> batch_state \<Rightarrow> (pyexn \<times> batch_state) + batch_state" where
  "ingest e source n [] st = Inr st"
| "ingest e source n (a # as) st =
     (case process_one e source n st a of
        Inl x \<Rightarrow> Inl x
      | Inr st' \<Rightarrow> ingest e source (Suc n) as st')"

text \<open>The second loop: each removed id is fetched from the store; a failed fetch is skipped.\<close>

primrec fetch_removed :: "env \<Rightarrow> nat \<Rightarrow> database \<Rightarrow> string list \<Rightarrow> (string \<rightharpoonup> pyval) list" where
  "fetch_removed e n d [] = []"
| "fetch_removed e n d (property_id # ids) =
     (case get_property (db_fault e n) d property_id of
        Some property_data \<Rightarrow> property_data # fetch_removed e (Suc n) d ids
      | None \<Rightarrow> fetch_removed e (Suc n) d ids)"

text \<open>The state at the start of \<open>process_listings\<close>: the three lists are empty.\<close>

definition init_state :: "(nat \<Rightarrow> listing) \<Rightarrow> database \<Rightarrow> batch_state" where
  "init_state h d = \<lparr> bs_heap = h, bs_db = d, bs_new = [], bs_updated = [], bs_active_ids = [] \<rparr>"

definition process_listings ::
  "env \<Rightarrow> (nat \<Rightarrow> listing) \<Rightarrow> database \<Rightarrow> nat list \<Rightarrow> string
    \<Rightarrow> (pyexn \<times> (nat \<Rightarrow> listing) \<times> database) + ((nat \<Rightarrow> listing) \<times> database \<times> batch_result)" where
  "process_listings e h d listings source =
     (case ingest e source 0 listings (init_state h d) of
        Inl (x, st) \<Rightarrow> Inl (x, bs_heap st, bs_db st)
      | Inr st \<Rightarrow>
          (let n = length listings;
               (d', removed_ids) =
                  mark_inactive_properties (db_fault e n) (clock e n) (bs_db st)
                    (bs_active_ids st) source
           in Inr (bs_heap st, d',
                   \<lparr> r_new = bs_new st, r_updated = bs_updated st,
                     r_removed = fetch_removed e (Suc n) d' removed_ids \<rparr>)))"

section \<open>Example data\<close>

text \<open>
  The listing of \<open>test_update_property\<close> in test\_components.py, the row that its first
  upsert stores at the clock reading \<open>t1\<close>, and the database holding that row.
\<close>

definition ex_listing :: listing where
  "ex_listing =
     \<lparr> l_id = Some ''test_property_2'', l_address = Py ''Teststraat 456'',
       l_city = Py ''Amsterdam'', l_price = Py 180000, l_area = Py 85, l_rooms = Py 4,
       l_property_type = Py ''Eengezinswoning'', l_url = Py ''https://example.com/property/2'',
       l_source = Some ''test_source'', l_other = [] \<rparr>"

definition ex_row :: prow where
  "ex_row =
     \<lparr> p_id = ''test_property_2'', p_address = ''Teststraat 456'', p_city = ''Amsterdam'',
       p_price = 180000, p_area = Some 85, p_rooms = Some 4,
       p_property_type = Some ''Eengezinswoning'', p_url = ''https://example.com/property/2'',
       p_source = ''test_source'', p_first_seen = ''t1'', p_last_seen = ''t1'',
       p_last_updated = ''t1'', p_extra_data = [], p_active = True \<rparr>"

definition ex_db :: database where
  "ex_db =
     \<lparr> properties = [ex_row],
       property_history = [new_entry ''test_property_2'' ''t1'' ''Teststraat 456'' ''Amsterdam''] \<rparr>"

definition empty_db :: database where
  "empty_db = \<lparr> properties = [], property_history = [] \<rparr>"

text \<open>
  Object stores and an environment for example batches: the clock always reads \<open>t2\<close> and
  SQLite never raises. In \<open>ex_heap_no_id\<close> the object at address 0 has no \<open>id\<close> key; in
  \<open>ex_heap_no_price\<close> the scraper could not parse the price of the known property; in
  \<open>ex_heap_batch\<close> object 0 is the known property with a new price and object 1 is a
  property the store has not seen, both not yet stamped with a source.
\<close>

definition ex_env :: env where
  "ex_env = \<lparr> clock = (\<lambda>n. ''t2''), db_fault = (\<lambda>n. False) \<rparr>"


definition ex_heap_no_price :: "nat \<Rightarrow> listing" where
  "ex_heap_no_price a = ex_listing\<lparr> l_price := PyNone \<rparr>"

definition ex_heap_batch :: "nat \<Rightarrow> listing" where
  "ex_heap_batch a =
     (if a = 0 then ex_listing\<lparr> l_price := Py 190000, l_source := None \<rparr>
      else ex_listing\<lparr> l_id := Some ''test_property_3'', l_source := None \<rparr>)"

text \<open>
  The example database after a sweep at \<open>t3\<close> has deactivated its row, and an object store
  whose listings all equal the stored record.
\<close>

definition ex_db_inactive :: database where
  "ex_db_inactive =
     \<lparr> properties = [ex_row\<lparr> p_active := False, p_last_updated := ''t3'' \<rparr>],
       property_history = property_history ex_db @ [inactive_entry ''test_property_2'' ''t3''] \<rparr>"

definition ex_heap_same :: "nat \<Rightarrow> listing" where
  "ex_heap_same a = ex_listing\<lparr> l_source := None \<rparr>"

text \<open>
  An object store for a batch that carries the known id twice: object 0 with a new price,
  object 1 equal to the stored record.
\<close>

definition ex_heap_dup :: "nat \<Rightarrow> listing" where
  "ex_heap_dup a =
     (if a = 0 then ex_listing\<lparr> l_price := Py 190000, l_source := None \<rparr>
      else ex_listing\<lparr> l_source := None \<rparr>)"

section \<open>Properties of the criteria filter\<close>

lemma str_in_sublist: "str_in sub s \<longleftrightarrow> sublist sub s"
proof (induction s)
  case Nil
  then show ?case by auto
next
  case (Cons x xs)
  have "take (length sub) (x # xs) = sub \<longleftrightarrow> prefix sub (x # xs)"
    by (metis append_take_drop_id prefix_def append_eq_conv_conj)
  then show ?case using Cons by (simp add: sublist_Cons_right)
qed

lemma check_types_eq:
  "check_types f pd = Inr (property_types f = [] \<or>
      (\<exists>t. dict_get (l_property_type pd) [] = Some t \<and> t \<in> set (property_types f)))"
  by (cases "l_property_type pd") (simp_all add: check_types_def)

lemma check_city_eq:
  assumes "cities f = [] \<or> dict_get (l_city pd) [] = Some city"
  shows "check_city f pd =
     Inr ((cities f = [] \<or> (\<exists>c\<in>set (cities f). sublist (lower c) (lower city))) \<and>
          (property_types f = [] \<or>
            (\<exists>t. dict_get (l_property_type pd) [] = Some t \<and> t \<in> set (property_types f))))"
  using assms by (auto simp: check_city_def check_types_eq list_ex_iff str_in_sublist)

lemma lower_Rotterdam: "lower ''Rotterdam'' = ''rotterdam''"
  by code_simp

text \<open>
  C8 (amended). For a listing whose price and area are integers or missing keys (a missing
  key counts as 0) and whose city is a string or a missing key (counting as the empty
  string) whenever cities are configured, \<open>matches\<close> returns the conjunction of: the price
  lies in \<open>[min_price, max_price]\<close>; the area is at least \<open>min_area\<close>, so a missing area
  fails exactly when \<open>min_area > 0\<close>; the lower-cased city contains some lower-cased
  configured city, or no city is configured; the property type is one of the configured
  types, or no type is configured. The default range of the constructor is not unbounded:
  it is 0 to 10000000, and the other defaults are 0 and the empty lists.
\<close>

theorem C8_matches_conjunction:
  assumes "dict_get (l_price pd) 0 = Some price"
    and "dict_get (l_area pd) 0 = Some area"
    and "cities f = [] \<or> dict_get (l_city pd) [] = Some city"
  shows "matches f pd =
           Inr (min_price f \<le> price \<and> price \<le> max_price f \<and> min_area f \<le> area \<and>
             (cities f = [] \<or> (\<exists>c\<in>set (cities f). sublist (lower c) (lower city))) \<and>
             (property_types f = [] \<or>
               (\<exists>t. dict_get (l_property_type pd) [] = Some t \<and> t \<in> set (property_types f))))
         \<and> (l_area pd = Absent \<longrightarrow> area = 0)
         \<and> min_price (PropertyFilter_init None mx ma cs ts) = 0
         \<and> max_price (PropertyFilter_init mn None ma cs ts) = 10000000
         \<and> min_area (PropertyFilter_init mn mx None cs ts) = 0
         \<and> cities (PropertyFilter_init mn mx ma None ts) = []
         \<and> property_types (PropertyFilter_init mn mx ma cs None) = []"
proof -
  have "matches f pd =
           Inr (min_price f \<le> price \<and> price \<le> max_price f \<and> min_area f \<le> area \<and>
             (cities f = [] \<or> (\<exists>c\<in>set (cities f). sublist (lower c) (lower city))) \<and>
             (property_types f = [] \<or>
               (\<exists>t. dict_get (l_property_type pd) [] = Some t \<and> t \<in> set (property_types f))))"
    using assms(1,2) check_city_eq[OF assms(3)] by (auto simp: matches_def)
  moreover have "l_area pd = Absent \<longrightarrow> area = 0"
    using assms(2) by auto
  ultimately show ?thesis
    by (simp add: PropertyFilter_init_def)
qed

text \<open>The matching record of \<open>test_filter_matches\<close>, under the filter of the test's set-up.\<close>

theorem C8_matches_conjunction_witness:
  "matches (PropertyFilter_init (Some 100000) (Some 225000) (Some 50)
              (Some [''Rotterdam'', ''Amsterdam'']) (Some [''Appartement'', ''Eengezinswoning'']))
     \<lparr> l_id = None, l_address = Absent, l_city = Py ''Rotterdam'', l_price = Py 150000,
       l_area = Py 75, l_rooms = Absent, l_property_type = Py ''Appartement'', l_url = Absent,
       l_source = None, l_other = [] \<rparr> = Inr True"
  using C8_matches_conjunction
    [of "\<lparr> l_id = None, l_address = Absent, l_city = Py ''Rotterdam'', l_price = Py 150000,
           l_area = Py 75, l_rooms = Absent, l_property_type = Py ''Appartement'',
           l_url = Absent, l_source = None, l_other = [] \<rparr>"
        150000 75
        "PropertyFilter_init (Some 100000) (Some 225000) (Some 50)
           (Some [''Rotterdam'', ''Amsterdam'']) (Some [''Appartement'', ''Eengezinswoning''])"
        "''Rotterdam''"]
  by (simp add: PropertyFilter_init_def lower_Rotterdam)

text \<open>
  With every argument of the constructor left at its default, no city and no type is
  configured and the minimum area is 0, yet a listing priced 20000000 does not match.
\<close>

theorem C8_default_range_counterexample:
  "matches (PropertyFilter_init None None None None None)
     \<lparr> l_id = None, l_address = Absent, l_city = Absent, l_price = Py 20000000,
       l_area = Absent, l_rooms = Absent, l_property_type = Absent, l_url = Absent,
       l_source = None, l_other = [] \<rparr> = Inr False"
  by (simp add: matches_def PropertyFilter_init_def)

section \<open>Properties of the entity store\<close>

lemma find_append_fresh:
  "find P xs = None \<Longrightarrow> find P (xs @ [x]) = (if P x then Some x else None)"
  by (induction xs) (auto split: if_splits)

lemma find_update_where_id:
  assumes "\<And>r. p_id (upd r) = p_id r"
  shows "find (\<lambda>r. p_id r = pid) (update_where_id pid' upd rows) =
         map_option (\<lambda>r. if p_id r = pid' then upd r else r) (find (\<lambda>r. p_id r = pid) rows)"
  using assms by (induction rows) (auto simp: update_where_id_def)

lemma find_Some_id: "find (\<lambda>r. p_id r = pid) rows = Some r \<Longrightarrow> p_id r = pid"
  by (induction rows) (auto split: if_splits)

lemma detect_changes_fields:
  "c \<in> set (detect_changes ex pd fs) \<Longrightarrow>
     c_field c \<in> set fs \<and> c_old_value c = existing_item ex (c_field c) \<and>
     listing_item pd (c_field c) = Some (c_new_value c) \<and> c_old_value c \<noteq> c_new_value c"
  by (induction fs) (auto split: option.splits if_splits)

lemma detect_changes_iff:
  "(\<exists>c\<in>set (detect_changes ex pd fs). c_field c = f) \<longleftrightarrow>
     (f \<in> set fs \<and> (\<exists>nv. listing_item pd f = Some nv \<and> existing_item ex f \<noteq> nv))"
  by (induction fs) (auto split: option.splits if_splits)

lemma detect_changes_distinct:
  "distinct fs \<Longrightarrow> distinct (map c_field (detect_changes ex pd fs))"
  by (induction fs) (auto split: option.splits if_splits dest: detect_changes_fields)

lemma update_existing_cases:
  "update_existing t d pid pd cs = Inr (d', stat, cs') \<Longrightarrow>
     (stat = SError \<and> d' = d \<and> cs' = []) \<or>
     (stat = SUpdated \<and> cs' = cs \<and>
      property_history d' = property_history d @ map (changed_entry pid t) cs)"
  unfolding update_existing_def
  by (cases "l_address pd"; cases "l_city pd"; cases "l_price pd"; cases "l_url pd") auto

lemma ex_db_created:
  "add_or_update_property False ''t1'' empty_db ex_listing = Inr (ex_db, SNew, [])"
  by (simp add: add_or_update_property_def insert_new_def empty_db_def ex_listing_def ex_db_def
      ex_row_def extra_of_def)

lemma ex_update:
  "add_or_update_property False ''t2'' ex_db (ex_listing\<lparr> l_price := Py 190000, l_rooms := Py 5 \<rparr>) =
     Inr (\<lparr> properties = [ex_row\<lparr> p_price := 190000, p_rooms := Some 5, p_last_seen := ''t2'',
                               p_last_updated := ''t2'' \<rparr>],
            property_history = property_history ex_db @
              [changed_entry ''test_property_2'' ''t2''
                 \<lparr> c_field = ''price'', c_old_value = IntS 180000, c_new_value = IntS 190000 \<rparr>,
               changed_entry ''test_property_2'' ''t2''
                 \<lparr> c_field = ''rooms'', c_old_value = IntS 4, c_new_value = IntS 5 \<rparr>] \<rparr>,
          SUpdated,
          [\<lparr> c_field = ''price'', c_old_value = IntS 180000, c_new_value = IntS 190000 \<rparr>,
           \<lparr> c_field = ''rooms'', c_old_value = IntS 4, c_new_value = IntS 5 \<rparr>])"
  by (simp add: add_or_update_property_def update_existing_def ex_listing_def ex_db_def ex_row_def
      extra_of_def core_fields_def listing_item_def existing_item_def update_where_id_def)

text \<open>
  C1 (amended). For an entity that has a stored record and an upsert that succeeds (status
  \<open>updated\<close> or \<open>unchanged\<close>), the history grows by exactly one \<open>changed_<field>\<close> row per
  returned change, and a core field has such a row if and only if the listing carries the
  field and its value differs from the stored one; the row is built from the stored and the
  new value. What happens to the stored value of a field the listing omits is not part of
  this statement.
\<close>

theorem C1_history_iff_compared_field_differs:
  assumes "l_id pd = Some pid"
    and "find (\<lambda>r. p_id r = pid) (properties d) = Some ex"
    and "add_or_update_property fault t d pd = Inr (d', stat, changes)"
    and "stat \<noteq> SError"
  shows "property_history d' = property_history d @ map (changed_entry pid t) changes
       \<and> distinct (map c_field changes)
       \<and> (\<forall>f\<in>set core_fields.
            (\<exists>c\<in>set changes. c_field c = f) \<longleftrightarrow>
            (\<exists>nv. listing_item pd f = Some nv \<and> existing_item ex f \<noteq> nv))
       \<and> (\<forall>c\<in>set changes. c_field c \<in> set core_fields
            \<and> c_old_value c = existing_item ex (c_field c)
            \<and> listing_item pd (c_field c) = Some (c_new_value c))"
proof -
  let ?cs = "detect_changes ex pd core_fields"
  have nf: "\<not> fault"
    using assms by (auto simp: add_or_update_property_def split: if_splits)
  have "property_history d' = property_history d @ map (changed_entry pid t) changes \<and> changes = ?cs"
  proof (cases "?cs = []")
    case True
    then show ?thesis
      using assms nf by (auto simp: add_or_update_property_def)
  next
    case False
    then have "update_existing t d pid pd ?cs = Inr (d', stat, changes)"
      using assms nf by (simp add: add_or_update_property_def)
    from update_existing_cases[OF this] assms(4) show ?thesis
      by auto
  qed
  moreover have "distinct (map c_field ?cs)"
    by (rule detect_changes_distinct) (simp add: core_fields_def)
  ultimately show ?thesis
    using detect_changes_iff[of ex pd core_fields] detect_changes_fields[of _ ex pd core_fields]
    by auto
qed

text \<open>The second upsert of \<open>test_update_property\<close>: price and rooms change, two rows are added.\<close>

theorem C1_history_witness:
  "property_history
     \<lparr> properties = [ex_row\<lparr> p_price := 190000, p_rooms := Some 5, p_last_seen := ''t2'',
                              p_last_updated := ''t2'' \<rparr>],
       property_history = property_history ex_db @
         [changed_entry ''test_property_2'' ''t2''
            \<lparr> c_field = ''price'', c_old_value = IntS 180000, c_new_value = IntS 190000 \<rparr>,
          changed_entry ''test_property_2'' ''t2''
            \<lparr> c_field = ''rooms'', c_old_value = IntS 4, c_new_value = IntS 5 \<rparr>] \<rparr>
   = property_history ex_db @ map (changed_entry ''test_property_2'' ''t2'')
       [\<lparr> c_field = ''price'', c_old_value = IntS 180000, c_new_value = IntS 190000 \<rparr>,
        \<lparr> c_field = ''rooms'', c_old_value = IntS 4, c_new_value = IntS 5 \<rparr>]"
proof -
  have h1: "l_id (ex_listing\<lparr> l_price := Py 190000, l_rooms := Py 5 \<rparr>) = Some ''test_property_2''"
    by (simp add: ex_listing_def)
  have h2: "find (\<lambda>r. p_id r = ''test_property_2'') (properties ex_db) = Some ex_row"
    by (simp add: ex_db_def ex_row_def)
  have h4: "SUpdated \<noteq> SError"
    by simp
  show ?thesis
    by (rule C1_history_iff_compared_field_differs[OF h1 h2 ex_update h4, THEN conjunct1])
qed

text \<open>
  The stored area is 85. A listing with a new price and no \<open>area\<close> key is upserted: the
  stored area becomes 0, and the only history row added is the one for the price.
\<close>

theorem C1_silent_default_counterexample:
  "add_or_update_property False ''t2'' ex_db (ex_listing\<lparr> l_price := Py 190000, l_area := Absent \<rparr>) =
     Inr (\<lparr> properties = [ex_row\<lparr> p_price := 190000, p_area := Some 0, p_last_seen := ''t2'',
                               p_last_updated := ''t2'' \<rparr>],
            property_history = property_history ex_db @
              [changed_entry ''test_property_2'' ''t2''
                 \<lparr> c_field = ''price'', c_old_value = IntS 180000, c_new_value = IntS 190000 \<rparr>] \<rparr>,
          SUpdated,
          [\<lparr> c_field = ''price'', c_old_value = IntS 180000, c_new_value = IntS 190000 \<rparr>])
   \<and> p_area ex_row = Some 85"
  by (simp add: add_or_update_property_def update_existing_def ex_listing_def ex_db_def ex_row_def
      extra_of_def core_fields_def listing_item_def existing_item_def update_where_id_def)

lemma detect_changes_inserted:
  assumes "l_address pd = Py a" "l_city pd = Py c" "l_price pd = Py p"
  shows "detect_changes
           \<lparr> p_id = pid, p_address = a, p_city = c, p_price = p,
             p_area = dict_get (l_area pd) 0, p_rooms = dict_get (l_rooms pd) 0,
             p_property_type = dict_get (l_property_type pd) ''Onbekend'',
             p_url = u, p_source = src, p_first_seen = t, p_last_seen = t, p_last_updated = t,
             p_extra_data = x, p_active = True \<rparr> pd core_fields = []"
  using assms
  by (cases "l_area pd"; cases "l_rooms pd"; cases "l_property_type pd")
     (simp_all add: core_fields_def listing_item_def existing_item_def)

text \<open>
  C7. A listing with its mandatory keys set, whose id the store does not hold, is upserted
  twice while the database works: the first call returns \<open>new\<close>, the second \<open>unchanged\<close>,
  and the history has grown by exactly one row, the \<open>new_property\<close> row of that id; if the
  history had no row of that id before, it has exactly that one afterwards.
\<close>

theorem C7_idempotence:
  assumes "l_id pd = Some pid"
    and "find (\<lambda>r. p_id r = pid) (properties d) = None"
    and "l_address pd = Py a" and "l_city pd = Py c" and "l_price pd = Py p"
    and "l_url pd = Py u" and "l_source pd = Some src"
  shows "\<exists>d1 d2. add_or_update_property False t1 d pd = Inr (d1, SNew, [])
           \<and> add_or_update_property False t2 d1 pd = Inr (d2, SUnchanged, [])
           \<and> property_history d2 = property_history d @ [new_entry pid t1 a c]
           \<and> filter (\<lambda>h. h_property_id h = pid) (property_history d2) =
               filter (\<lambda>h. h_property_id h = pid) (property_history d) @ [new_entry pid t1 a c]
           \<and> ((\<forall>h\<in>set (property_history d). h_property_id h \<noteq> pid) \<longrightarrow>
               filter (\<lambda>h. h_property_id h = pid) (property_history d2) = [new_entry pid t1 a c])"
proof -
  let ?row = "\<lparr> p_id = pid, p_address = a, p_city = c, p_price = p,
             p_area = dict_get (l_area pd) 0, p_rooms = dict_get (l_rooms pd) 0,
             p_property_type = dict_get (l_property_type pd) ''Onbekend'',
             p_url = u, p_source = src, p_first_seen = t1, p_last_seen = t1, p_last_updated = t1,
             p_extra_data = extra_of pd, p_active = True \<rparr>"
  let ?d1 = "d\<lparr> properties := properties d @ [?row],
                property_history := property_history d @ [new_entry pid t1 a c] \<rparr>"
  have first: "add_or_update_property False t1 d pd = Inr (?d1, SNew, [])"
    using assms by (simp add: add_or_update_property_def insert_new_def)
  have found: "find (\<lambda>r. p_id r = pid) (properties ?d1) = Some ?row"
    using assms(2) by (simp add: find_append_fresh)
  have nochange: "detect_changes ?row pd core_fields = []"
    by (rule detect_changes_inserted[OF assms(3,4,5)])
  let ?d2 = "?d1\<lparr> properties := update_where_id pid
                  (\<lambda>r. r\<lparr> p_last_seen := t2, p_active := True \<rparr>) (properties ?d1) \<rparr>"
  have second: "add_or_update_property False t2 ?d1 pd = Inr (?d2, SUnchanged, [])"
    using assms(1) found nochange by (simp add: add_or_update_property_def)
  have hist: "property_history ?d2 = property_history d @ [new_entry pid t1 a c]"
    by simp
  have own: "filter (\<lambda>h. h_property_id h = pid) (property_history ?d2) =
               filter (\<lambda>h. h_property_id h = pid) (property_history d) @ [new_entry pid t1 a c]"
    by (simp add: new_entry_def)
  have "(\<forall>h\<in>set (property_history d). h_property_id h \<noteq> pid) \<longrightarrow>
          filter (\<lambda>h. h_property_id h = pid) (property_history ?d2) = [new_entry pid t1 a c]"
    using own by (simp add: filter_empty_conv)
  with first second hist own show ?thesis
    by blast
qed

text \<open>The listing of the test, upserted twice into the empty database.\<close>

theorem C7_idempotence_witness:
  "fst (snd (projr (add_or_update_property False ''t2'' ex_db ex_listing))) = SUnchanged
   \<and> property_history (fst (projr (add_or_update_property False ''t2'' ex_db ex_listing))) =
       [new_entry ''test_property_2'' ''t1'' ''Teststraat 456'' ''Amsterdam'']"
proof -
  have h1: "l_id ex_listing = Some ''test_property_2''"
    and h3: "l_address ex_listing = Py ''Teststraat 456''"
    and h4: "l_city ex_listing = Py ''Amsterdam''"
    and h5: "l_price ex_listing = Py 180000"
    and h6: "l_url ex_listing = Py ''https://example.com/property/2''"
    and h7: "l_source ex_listing = Some ''test_source''"
    by (simp_all add: ex_listing_def)
  have h2: "find (\<lambda>r. p_id r = ''test_property_2'') (properties empty_db) = None"
    by (simp add: empty_db_def)
  from C7_idempotence[OF h1 h2 h3 h4 h5 h6 h7, of "''t1''" "''t2''"]
  obtain d1 d2 where a: "add_or_update_property False ''t1'' empty_db ex_listing = Inr (d1, SNew, [])"
    and b: "add_or_update_property False ''t2'' d1 ex_listing = Inr (d2, SUnchanged, [])"
    and c: "property_history d2 = property_history empty_db @
              [new_entry ''test_property_2'' ''t1'' ''Teststraat 456'' ''Amsterdam'']"
    by blast
  from a have "d1 = ex_db"
    by (simp add: ex_db_created)
  with b c show ?thesis
    by (simp add: empty_db_def)
qed

lemma properties_fold_deactivate:
  "properties (fold (deactivate_one t) ids d) =
     map (\<lambda>r. if p_id r \<in> set ids then r\<lparr> p_active := False, p_last_updated := t \<rparr> else r)
       (properties d)"
  by (induction ids arbitrary: d) (auto simp: deactivate_one_def update_where_id_def)

lemma history_fold_deactivate:
  "property_history (fold (deactivate_one t) ids d) =
     property_history d @ map (\<lambda>i. inactive_entry i t) ids"
  by (induction ids arbitrary: d) (auto simp: deactivate_one_def)

lemma mark_inactive_eq:
  assumes "mark_inactive_properties fault t d active_ids source = (d', removed)"
  shows "removed = (if fault then [] else map p_id (filter
             (\<lambda>r. p_source r = source \<and> p_active r \<and>
                  p_id r \<notin> set (if active_ids \<noteq> [] then active_ids else [''''])) (properties d)))"
    and "properties d' =
           map (\<lambda>r. if p_id r \<in> set removed then r\<lparr> p_active := False, p_last_updated := t \<rparr> else r)
             (properties d)"
    and "property_history d' = property_history d @ map (\<lambda>i. inactive_entry i t) removed"
  using assms
  by (auto simp: mark_inactive_properties_def Let_def properties_fold_deactivate
        history_fold_deactivate split: if_splits)

lemma last_updated_touch:
  "map p_last_updated (update_where_id pid (\<lambda>r. r\<lparr> p_last_seen := t, p_active := True \<rparr>) rows) =
     map p_last_updated rows"
  by (induction rows) (auto simp: update_where_id_def)

lemma insert_new_cases:
  "insert_new t d pid pd = Inr (d', stat, cs) \<Longrightarrow>
     (stat = SError \<and> d' = d \<and> cs = []) \<or> (stat = SNew \<and> cs = [])"
  unfolding insert_new_def
  by (cases "l_address pd"; cases "l_city pd"; cases "l_price pd"; cases "l_url pd";
      cases "l_source pd") auto

lemma unchanged_last_updated:
  assumes "add_or_update_property fault t d pd = Inr (d', SUnchanged, cs)"
  shows "map p_last_updated (properties d') = map p_last_updated (properties d)"
  using assms
  by (auto simp: add_or_update_property_def Let_def last_updated_touch
      split: option.splits if_splits dest: update_existing_cases insert_new_cases)

lemma ex_unchanged:
  "add_or_update_property False ''t2'' ex_db ex_listing =
     Inr (\<lparr> properties = [ex_row\<lparr> p_last_seen := ''t2'' \<rparr>],
            property_history = property_history ex_db \<rparr>, SUnchanged, [])"
  by (simp add: add_or_update_property_def ex_listing_def ex_db_def ex_row_def
      core_fields_def listing_item_def existing_item_def update_where_id_def)

lemma ex_sweep:
  "mark_inactive_properties False ''t3'' ex_db [] ''test_source'' =
     (\<lparr> properties = [ex_row\<lparr> p_active := False, p_last_updated := ''t3'' \<rparr>],
        property_history = property_history ex_db @ [inactive_entry ''test_property_2'' ''t3''] \<rparr>,
      [''test_property_2''])"
  by (simp add: mark_inactive_properties_def deactivate_one_def update_where_id_def ex_db_def
      ex_row_def)

text \<open>
  C6 (amended). An upsert that returns \<open>unchanged\<close> leaves the \<open>last_updated\<close> column of every
  row as it was. The inactivation sweep does not: it writes the time of the sweep into
  \<open>last_updated\<close> of every row it deactivates, and leaves the other rows as they are.
\<close>

theorem C6_last_updated:
  "(add_or_update_property fault t d pd = Inr (d', SUnchanged, cs) \<longrightarrow>
      map p_last_updated (properties d') = map p_last_updated (properties d))
   \<and> (mark_inactive_properties fault' t' d active_ids source = (d'', removed) \<longrightarrow>
      properties d'' =
        map (\<lambda>r. if p_id r \<in> set removed then r\<lparr> p_active := False, p_last_updated := t' \<rparr> else r)
          (properties d))"
  using unchanged_last_updated mark_inactive_eq(2) by blast

text \<open>An unchanged upsert of the example listing, and a sweep with no id seen.\<close>

theorem C6_last_updated_witness:
  "map p_last_updated [ex_row\<lparr> p_last_seen := ''t2'' \<rparr>] = map p_last_updated (properties ex_db)
   \<and> [ex_row\<lparr> p_active := False, p_last_updated := ''t3'' \<rparr>] =
       map (\<lambda>r. if p_id r \<in> set [''test_property_2'']
                then r\<lparr> p_active := False, p_last_updated := ''t3'' \<rparr> else r) (properties ex_db)"
  using C6_last_updated[of False "''t2''" ex_db ex_listing
      "\<lparr> properties = [ex_row\<lparr> p_last_seen := ''t2'' \<rparr>], property_history = property_history ex_db \<rparr>"
      "[]" False "''t3''" "[]" "''test_source''"
      "\<lparr> properties = [ex_row\<lparr> p_active := False, p_last_updated := ''t3'' \<rparr>],
         property_history = property_history ex_db @ [inactive_entry ''test_property_2'' ''t3''] \<rparr>"
      "[''test_property_2'']"]
    ex_unchanged ex_sweep
  by simp

text \<open>
  The example row was last updated at \<open>t1\<close>. A sweep at \<open>t3\<close> that has seen no id
  deactivates it and sets its \<open>last_updated\<close> to \<open>t3\<close>, although no core field changed.
\<close>

theorem C6_sweep_counterexample:
  "mark_inactive_properties False ''t3'' ex_db [] ''test_source'' =
     (\<lparr> properties = [ex_row\<lparr> p_active := False, p_last_updated := ''t3'' \<rparr>],
        property_history = property_history ex_db @ [inactive_entry ''test_property_2'' ''t3''] \<rparr>,
      [''test_property_2''])
   \<and> p_last_updated ex_row = ''t1''
   \<and> p_last_updated (ex_row\<lparr> p_active := False, p_last_updated := ''t3'' \<rparr>) \<noteq> p_last_updated ex_row"
  by (simp add: mark_inactive_properties_def deactivate_one_def update_where_id_def ex_db_def
      ex_row_def)

text \<open>
  C3. The claim holds for a non-empty list of seen ids (\<open>mark_inactive_eq\<close>). For the empty
  list the SELECT is written with \<open>NOT IN ('')\<close>: a listing whose id is the empty string is
  stored by an upsert, and the sweep of its source with no id seen neither deactivates nor
  returns it, against the claim and the docstring of the function.
\<close>

theorem C3_empty_id_survives_empty_sweep:
  "add_or_update_property False ''t1'' empty_db (ex_listing\<lparr> l_id := Some [] \<rparr>) =
     Inr (\<lparr> properties = [ex_row\<lparr> p_id := [] \<rparr>],
            property_history = [new_entry [] ''t1'' ''Teststraat 456'' ''Amsterdam''] \<rparr>, SNew, [])
   \<and> mark_inactive_properties False ''t3''
       \<lparr> properties = [ex_row\<lparr> p_id := [] \<rparr>],
         property_history = [new_entry [] ''t1'' ''Teststraat 456'' ''Amsterdam''] \<rparr>
       [] ''test_source'' =
       (\<lparr> properties = [ex_row\<lparr> p_id := [] \<rparr>],
          property_history = [new_entry [] ''t1'' ''Teststraat 456'' ''Amsterdam''] \<rparr>, [])
   \<and> p_source (ex_row\<lparr> p_id := [] \<rparr>) = ''test_source''
   \<and> p_active (ex_row\<lparr> p_id := [] \<rparr>)"
  by (simp add: add_or_update_property_def insert_new_def empty_db_def ex_listing_def
      extra_of_def mark_inactive_properties_def ex_row_def)

lemma insert_new_SNew:
  assumes "insert_new t d pid pd = Inr (d', SNew, cs)"
  shows "\<exists>a c p u src. l_address pd = Py a \<and> l_city pd = Py c \<and> l_price pd = Py p \<and>
           l_url pd = Py u \<and> l_source pd = Some src \<and> cs = [] \<and>
           d' = d\<lparr> properties := properties d @
                     [\<lparr> p_id = pid, p_address = a, p_city = c, p_price = p,
                        p_area = dict_get (l_area pd) 0,
                        p_rooms = dict_get (l_rooms pd) 0,
                        p_property_type = dict_get (l_property_type pd) ''Onbekend'',
                        p_url = u, p_source = src, p_first_seen = t,
                        p_last_seen = t, p_last_updated = t,
                        p_extra_data = extra_of pd, p_active = True \<rparr>],
                   property_history := property_history d @ [new_entry pid t a c] \<rparr>"
  using assms unfolding insert_new_def
  by (cases "l_address pd"; cases "l_city pd"; cases "l_price pd"; cases "l_url pd";
      cases "l_source pd") auto

lemma update_existing_SUpdated:
  assumes "update_existing t d pid pd cs = Inr (d', SUpdated, cs')"
  shows "\<exists>a c p u. l_address pd = Py a \<and> l_city pd = Py c \<and> l_price pd = Py p \<and>
           l_url pd = Py u \<and> cs' = cs \<and>
           d' = d\<lparr> properties := update_where_id pid
                     (\<lambda>r. r\<lparr> p_address := a, p_city := c, p_price := p,
                            p_area := dict_get (l_area pd) 0,
                            p_rooms := dict_get (l_rooms pd) 0,
                            p_property_type := dict_get (l_property_type pd) ''Onbekend'',
                            p_url := u, p_last_seen := t,
                            p_last_updated := t,
                            p_extra_data := extra_of pd, p_active := True \<rparr>)
                     (properties d),
                   property_history :=
                     property_history d @ map (changed_entry pid t) cs \<rparr>"
  using assms unfolding update_existing_def
  by (cases "l_address pd"; cases "l_city pd"; cases "l_price pd"; cases "l_url pd") auto

lemma upsert_SNew:
  assumes "add_or_update_property fault t d pd = Inr (d', SNew, cs)"
  shows "\<exists>pid. l_id pd = Some pid \<and> \<not> fault \<and> find (\<lambda>r. p_id r = pid) (properties d) = None \<and>
           insert_new t d pid pd = Inr (d', SNew, cs)"
  using assms
  by (auto simp: add_or_update_property_def Let_def split: option.splits if_splits
      dest: update_existing_cases)

lemma upsert_SUpdated:
  assumes "add_or_update_property fault t d pd = Inr (d', SUpdated, cs)"
  shows "\<exists>pid ex. l_id pd = Some pid \<and> \<not> fault \<and> find (\<lambda>r. p_id r = pid) (properties d) = Some ex \<and>
           detect_changes ex pd core_fields \<noteq> [] \<and>
           update_existing t d pid pd (detect_changes ex pd core_fields) = Inr (d', SUpdated, cs)"
  using assms
  by (auto simp: add_or_update_property_def Let_def split: option.splits if_splits
      dest: insert_new_cases)

lemma detect_changes_nonempty:
  "detect_changes ex pd fs \<noteq> [] \<longleftrightarrow>
     (\<exists>f\<in>set fs. \<exists>nv. listing_item pd f = Some nv \<and> existing_item ex f \<noteq> nv)"
  by (induction fs) (auto split: option.splits if_splits)

lemma table_key_not_extra:
  "k \<in> set table_keys \<Longrightarrow> map_of (extra_of pd) k = None"
  by (auto simp: extra_of_def map_of_eq_None_iff)

lemma get_property_column:
  assumes "find (\<lambda>r. p_id r = pid) (properties d) = Some r" and "p_extra_data r = extra_of pd"
  shows "\<exists>g. get_property False d pid = Some g
           \<and> g ''area'' = Some (Scalar (null_int (p_area r)))
           \<and> g ''rooms'' = Some (Scalar (null_int (p_rooms r)))
           \<and> g ''property_type'' = Some (Scalar (null_str (p_property_type r)))"
proof -
  have "map_of (extra_of pd) ''area'' = None" "map_of (extra_of pd) ''rooms'' = None"
    "map_of (extra_of pd) ''property_type'' = None"
    by (rule table_key_not_extra, simp add: table_keys_def)+
  then show ?thesis using assms
    by (simp add: get_property_def map_add_def row_dict_def)
qed

lemma stored_row_after_upsert:
  assumes "add_or_update_property fault t d pd = Inr (d', stat, cs)"
    and "stat = SNew \<or> stat = SUpdated"
  shows "\<exists>pid r. l_id pd = Some pid \<and> find (\<lambda>r. p_id r = pid) (properties d') = Some r
           \<and> p_area r = dict_get (l_area pd) 0 \<and> p_rooms r = dict_get (l_rooms pd) 0
           \<and> p_property_type r = dict_get (l_property_type pd) ''Onbekend''
           \<and> p_extra_data r = extra_of pd"
  using assms(2)
proof
  assume "stat = SNew"
  with assms(1) obtain pid where p: "l_id pd = Some pid"
    "find (\<lambda>r. p_id r = pid) (properties d) = None" "insert_new t d pid pd = Inr (d', SNew, cs)"
    using upsert_SNew by blast
  from insert_new_SNew[OF p(3)] p(1,2) show ?thesis
    by (auto simp: find_append_fresh)
next
  assume "stat = SUpdated"
  with assms(1) obtain pid ex where p: "l_id pd = Some pid"
    "find (\<lambda>r. p_id r = pid) (properties d) = Some ex"
    "update_existing t d pid pd (detect_changes ex pd core_fields) = Inr (d', SUpdated, cs)"
    using upsert_SUpdated by blast
  have "p_id ex = pid" using p(2) by (rule find_Some_id)
  with update_existing_SUpdated[OF p(3)] p(1,2) show ?thesis
    by (auto simp: find_update_where_id)
qed

lemma upsert_more_keys:
  assumes "add_or_update_property fault t d pd = Inr (d', stat, cs)"
    and "stat = SNew \<or> stat = SUpdated"
    and "l_id pd2 = l_id pd" "l_address pd2 = l_address pd" "l_city pd2 = l_city pd"
    and "l_price pd2 = l_price pd" "l_url pd2 = l_url pd" "l_source pd2 = l_source pd"
    and "l_other pd2 = l_other pd"
    and "dict_get (l_area pd2) 0 = dict_get (l_area pd) 0"
    and "dict_get (l_rooms pd2) 0 = dict_get (l_rooms pd) 0"
    and "dict_get (l_property_type pd2) ''Onbekend'' = dict_get (l_property_type pd) ''Onbekend''"
    and "\<And>f nv. listing_item pd f = Some nv \<Longrightarrow> listing_item pd2 f = Some nv"
  shows "\<exists>d2 cs2. add_or_update_property fault t d pd2 = Inr (d2, stat, cs2)
           \<and> properties d2 = properties d'"
  using assms(2)
proof
  assume s: "stat = SNew"
  with assms(1) obtain pid where p: "l_id pd = Some pid" "\<not> fault"
    "find (\<lambda>r. p_id r = pid) (properties d) = None" "insert_new t d pid pd = Inr (d', SNew, cs)"
    using upsert_SNew by blast
  from insert_new_SNew[OF p(4)] assms(3-12) have "insert_new t d pid pd2 = Inr (d', SNew, [])"
    by (auto simp: insert_new_def extra_of_def)
  with p s assms(3) show ?thesis
    by (simp add: add_or_update_property_def)
next
  assume s: "stat = SUpdated"
  with assms(1) obtain pid ex where p: "l_id pd = Some pid" "\<not> fault"
    "find (\<lambda>r. p_id r = pid) (properties d) = Some ex"
    "detect_changes ex pd core_fields \<noteq> []"
    "update_existing t d pid pd (detect_changes ex pd core_fields) = Inr (d', SUpdated, cs)"
    using upsert_SUpdated by blast
  have ne: "detect_changes ex pd2 core_fields \<noteq> []"
    using p(4) assms(13) unfolding detect_changes_nonempty by blast
  from update_existing_SUpdated[OF p(5)] assms(3-12)
  have "\<exists>d2. update_existing t d pid pd2 (detect_changes ex pd2 core_fields) =
           Inr (d2, SUpdated, detect_changes ex pd2 core_fields) \<and> properties d2 = properties d'"
    by (auto simp: update_existing_def extra_of_def)
  with p s ne assms(3) show ?thesis
    by (auto simp: add_or_update_property_def)
qed

lemma upsert_creates:
  assumes "l_id pd = Some pid" and "find (\<lambda>r. p_id r = pid) (properties d) = None"
    and "l_address pd = Py a" and "l_city pd = Py c" and "l_price pd = Py p"
    and "l_url pd = Py u" and "l_source pd = Some src"
  shows "add_or_update_property False t d pd =
           Inr (d\<lparr> properties := properties d @
                     [\<lparr> p_id = pid, p_address = a, p_city = c, p_price = p,
                        p_area = dict_get (l_area pd) 0,
                        p_rooms = dict_get (l_rooms pd) 0,
                        p_property_type = dict_get (l_property_type pd) ''Onbekend'',
                        p_url = u, p_source = src, p_first_seen = t,
                        p_last_seen = t, p_last_updated = t,
                        p_extra_data = extra_of pd, p_active = True \<rparr>],
                   property_history := property_history d @ [new_entry pid t a c] \<rparr>, SNew, [])"
  using assms by (simp add: add_or_update_property_def insert_new_def)

lemma upsert_updates:
  assumes "l_id pd = Some pid" and "find (\<lambda>r. p_id r = pid) (properties d) = Some ex"
    and "detect_changes ex pd core_fields \<noteq> []"
    and "l_address pd = Py a" and "l_city pd = Py c" and "l_price pd = Py p"
    and "l_url pd = Py u"
  shows "add_or_update_property False t d pd =
           Inr (d\<lparr> properties := update_where_id pid
                     (\<lambda>r. r\<lparr> p_address := a, p_city := c, p_price := p,
                            p_area := dict_get (l_area pd) 0,
                            p_rooms := dict_get (l_rooms pd) 0,
                            p_property_type := dict_get (l_property_type pd) ''Onbekend'',
                            p_url := u, p_last_seen := t,
                            p_last_updated := t,
                            p_extra_data := extra_of pd, p_active := True \<rparr>)
                     (properties d),
                   property_history := property_history d @
                     map (changed_entry pid t) (detect_changes ex pd core_fields) \<rparr>,
                SUpdated, detect_changes ex pd core_fields)"
  using assms by (simp add: add_or_update_property_def update_existing_def Let_def)

text \<open>
  C10 (amended). A listing with its mandatory keys set is upserted into a working database
  and the upsert creates the record (unknown id) or updates it (a carried core field
  differs). The upsert returns \<open>new\<close> or \<open>updated\<close> accordingly, and for a missing \<open>area\<close>,
  \<open>rooms\<close> or \<open>property_type\<close> key a following \<open>get_property\<close> of the id returns 0, 0 and
  \<open>Onbekend\<close>. Upserting the listing with the key set to that default instead returns the
  same status, leaves the same table of properties and makes \<open>get_property\<close> return the
  same dictionary; on a creation the whole database and the returned changes are the same
  too. On an update the history and the returned changes are not part of this statement.
\<close>

theorem C10_defaults_stored:
  assumes "l_id pd = Some pid"
    and "l_address pd = Py a" and "l_city pd = Py c" and "l_price pd = Py p"
    and "l_url pd = Py u" and "l_source pd = Some src"
    and "find (\<lambda>r. p_id r = pid) (properties d) = None \<or>
         (\<exists>ex. find (\<lambda>r. p_id r = pid) (properties d) = Some ex \<and>
               detect_changes ex pd core_fields \<noteq> [])"
  shows "\<exists>d' stat cs g. add_or_update_property False t d pd = Inr (d', stat, cs)
     \<and> (stat = SNew \<longleftrightarrow> find (\<lambda>r. p_id r = pid) (properties d) = None)
     \<and> (stat = SUpdated \<longleftrightarrow> find (\<lambda>r. p_id r = pid) (properties d) \<noteq> None)
     \<and> get_property False d' pid = Some g
     \<and> (l_area pd = Absent \<longrightarrow> g ''area'' = Some (Scalar (IntS 0))
          \<and> (\<exists>d2 cs2. add_or_update_property False t d (pd\<lparr> l_area := Py 0 \<rparr>) = Inr (d2, stat, cs2)
                \<and> properties d2 = properties d' \<and> get_property False d2 pid = Some g
                \<and> (stat = SNew \<longrightarrow> d2 = d' \<and> cs2 = cs)))
     \<and> (l_rooms pd = Absent \<longrightarrow> g ''rooms'' = Some (Scalar (IntS 0))
          \<and> (\<exists>d2 cs2. add_or_update_property False t d (pd\<lparr> l_rooms := Py 0 \<rparr>) = Inr (d2, stat, cs2)
                \<and> properties d2 = properties d' \<and> get_property False d2 pid = Some g
                \<and> (stat = SNew \<longrightarrow> d2 = d' \<and> cs2 = cs)))
     \<and> (l_property_type pd = Absent \<longrightarrow> g ''property_type'' = Some (Scalar (StrS ''Onbekend''))
          \<and> (\<exists>d2 cs2. add_or_update_property False t d (pd\<lparr> l_property_type := Py ''Onbekend'' \<rparr>)
                          = Inr (d2, stat, cs2)
                \<and> properties d2 = properties d' \<and> get_property False d2 pid = Some g
                \<and> (stat = SNew \<longrightarrow> d2 = d' \<and> cs2 = cs)))"
proof -
  obtain d' stat cs where up: "add_or_update_property False t d pd = Inr (d', stat, cs)"
    and st: "stat = SNew \<longleftrightarrow> find (\<lambda>r. p_id r = pid) (properties d) = None"
            "stat = SUpdated \<longleftrightarrow> find (\<lambda>r. p_id r = pid) (properties d) \<noteq> None"
    using assms(7)
  proof
    assume n: "find (\<lambda>r. p_id r = pid) (properties d) = None"
    from upsert_creates[OF assms(1) n assms(2-6)] n that show ?thesis by auto
  next
    assume "\<exists>ex. find (\<lambda>r. p_id r = pid) (properties d) = Some ex \<and>
               detect_changes ex pd core_fields \<noteq> []"
    then obtain ex where e: "find (\<lambda>r. p_id r = pid) (properties d) = Some ex"
      "detect_changes ex pd core_fields \<noteq> []" by blast
    from upsert_updates[OF assms(1) e assms(2-5)] e(1) that show ?thesis by auto
  qed
  have su: "stat = SNew \<or> stat = SUpdated"
    using st by (cases "find (\<lambda>r. p_id r = pid) (properties d)") auto
  from stored_row_after_upsert[OF up su] assms(1) obtain r where r:
    "find (\<lambda>r. p_id r = pid) (properties d') = Some r"
    "p_area r = dict_get (l_area pd) 0" "p_rooms r = dict_get (l_rooms pd) 0"
    "p_property_type r = dict_get (l_property_type pd) ''Onbekend''"
    "p_extra_data r = extra_of pd"
    by auto
  from get_property_column[OF r(1) r(5)] obtain g where g: "get_property False d' pid = Some g"
    "g ''area'' = Some (Scalar (null_int (p_area r)))"
    "g ''rooms'' = Some (Scalar (null_int (p_rooms r)))"
    "g ''property_type'' = Some (Scalar (null_str (p_property_type r)))"
    by blast
  have same: "\<exists>d2 cs2. add_or_update_property False t d pd2 = Inr (d2, stat, cs2)
                \<and> properties d2 = properties d' \<and> get_property False d2 pid = Some g
                \<and> (stat = SNew \<longrightarrow> d2 = d' \<and> cs2 = cs)"
    if k: "l_id pd2 = l_id pd" "l_address pd2 = l_address pd" "l_city pd2 = l_city pd"
      "l_price pd2 = l_price pd" "l_url pd2 = l_url pd" "l_source pd2 = l_source pd"
      "l_other pd2 = l_other pd"
      "dict_get (l_area pd2) 0 = dict_get (l_area pd) 0"
      "dict_get (l_rooms pd2) 0 = dict_get (l_rooms pd) 0"
      "dict_get (l_property_type pd2) ''Onbekend'' = dict_get (l_property_type pd) ''Onbekend''"
      and m: "\<And>f nv. listing_item pd f = Some nv \<Longrightarrow> listing_item pd2 f = Some nv"
    for pd2
  proof -
    from upsert_more_keys[OF up su k m] obtain d2 cs2 where
      d2: "add_or_update_property False t d pd2 = Inr (d2, stat, cs2)" "properties d2 = properties d'"
      by blast
    have "get_property False d2 pid = Some g"
      using g(1) d2(2) by (simp add: get_property_def)
    moreover have "d2 = d' \<and> cs2 = cs" if "stat = SNew"
    proof -
      from that st have n: "find (\<lambda>r. p_id r = pid) (properties d) = None" by simp
      have "add_or_update_property False t d pd2 = add_or_update_property False t d pd"
        using upsert_creates[OF assms(1) n assms(2-6), of t]
          upsert_creates[of pd2 pid d a c p u src t] k n assms(1-6)
        by (simp add: extra_of_def)
      with d2(1) up show ?thesis by simp
    qed
    ultimately show ?thesis using d2 by blast
  qed
  have a: "\<exists>d2 cs2. add_or_update_property False t d (pd\<lparr> l_area := Py 0 \<rparr>) = Inr (d2, stat, cs2)
                \<and> properties d2 = properties d' \<and> get_property False d2 pid = Some g
                \<and> (stat = SNew \<longrightarrow> d2 = d' \<and> cs2 = cs)" if "l_area pd = Absent"
    by (rule same) (use that in \<open>auto simp: listing_item_def split: if_splits\<close>)
  have b: "\<exists>d2 cs2. add_or_update_property False t d (pd\<lparr> l_rooms := Py 0 \<rparr>) = Inr (d2, stat, cs2)
                \<and> properties d2 = properties d' \<and> get_property False d2 pid = Some g
                \<and> (stat = SNew \<longrightarrow> d2 = d' \<and> cs2 = cs)" if "l_rooms pd = Absent"
    by (rule same) (use that in \<open>auto simp: listing_item_def split: if_splits\<close>)
  have c: "\<exists>d2 cs2. add_or_update_property False t d (pd\<lparr> l_property_type := Py ''Onbekend'' \<rparr>)
                          = Inr (d2, stat, cs2)
                \<and> properties d2 = properties d' \<and> get_property False d2 pid = Some g
                \<and> (stat = SNew \<longrightarrow> d2 = d' \<and> cs2 = cs)" if "l_property_type pd = Absent"
    by (rule same) (use that in \<open>auto simp: listing_item_def split: if_splits\<close>)
  from up st g r(2,3,4) a b c show ?thesis
    by auto
qed

text \<open>The example row, updated by a listing with a new price and no \<open>area\<close> key.\<close>

theorem C10_defaults_stored_witness:
  "the (get_property False
          (fst (projr (add_or_update_property False ''t2'' ex_db
                         (ex_listing\<lparr> l_price := Py 190000, l_area := Absent \<rparr>))))
          ''test_property_2'') ''area'' = Some (Scalar (IntS 0))
   \<and> fst (snd (projr (add_or_update_property False ''t2'' ex_db
                         (ex_listing\<lparr> l_price := Py 190000, l_area := Absent \<rparr>)))) = SUpdated"
proof -
  let ?pd = "ex_listing\<lparr> l_price := Py 190000, l_area := Absent \<rparr>"
  have h1: "l_id ?pd = Some ''test_property_2''"
    and h2: "l_address ?pd = Py ''Teststraat 456''"
    and h3: "l_city ?pd = Py ''Amsterdam''"
    and h4: "l_price ?pd = Py 190000"
    and h5: "l_url ?pd = Py ''https://example.com/property/2''"
    and h6: "l_source ?pd = Some ''test_source''"
    and ab: "l_area ?pd = Absent"
    by (simp_all add: ex_listing_def)
  have f: "find (\<lambda>r. p_id r = ''test_property_2'') (properties ex_db) = Some ex_row"
    by (simp add: ex_db_def ex_row_def)
  have "detect_changes ex_row ?pd core_fields \<noteq> []"
    by (simp add: ex_listing_def ex_row_def core_fields_def listing_item_def existing_item_def)
  with f have h7: "find (\<lambda>r. p_id r = ''test_property_2'') (properties ex_db) = None \<or>
         (\<exists>ex. find (\<lambda>r. p_id r = ''test_property_2'') (properties ex_db) = Some ex \<and>
               detect_changes ex ?pd core_fields \<noteq> [])"
    by blast
  from C10_defaults_stored[OF h1 h2 h3 h4 h5 h6 h7, of "''t2''"] ab f
  show ?thesis
    by auto
qed

text \<open>
  The stored area is 85. With a new price and no \<open>area\<close> key the upsert returns one change
  and adds one history row; with a new price and the area set to 0 it returns two changes
  and adds two history rows. The table of properties is the same in both cases.
\<close>

theorem C10_history_tells_apart_counterexample:
  "add_or_update_property False ''t2'' ex_db (ex_listing\<lparr> l_price := Py 190000, l_area := Absent \<rparr>) =
     Inr (\<lparr> properties = [ex_row\<lparr> p_price := 190000, p_area := Some 0, p_last_seen := ''t2'',
                               p_last_updated := ''t2'' \<rparr>],
            property_history = property_history ex_db @
              [changed_entry ''test_property_2'' ''t2''
                 \<lparr> c_field = ''price'', c_old_value = IntS 180000, c_new_value = IntS 190000 \<rparr>] \<rparr>,
          SUpdated,
          [\<lparr> c_field = ''price'', c_old_value = IntS 180000, c_new_value = IntS 190000 \<rparr>])
   \<and> add_or_update_property False ''t2'' ex_db (ex_listing\<lparr> l_price := Py 190000, l_area := Py 0 \<rparr>) =
     Inr (\<lparr> properties = [ex_row\<lparr> p_price := 190000, p_area := Some 0, p_last_seen := ''t2'',
                               p_last_updated := ''t2'' \<rparr>],
            property_history = property_history ex_db @
              [changed_entry ''test_property_2'' ''t2''
                 \<lparr> c_field = ''price'', c_old_value = IntS 180000, c_new_value = IntS 190000 \<rparr>,
               changed_entry ''test_property_2'' ''t2''
                 \<lparr> c_field = ''area'', c_old_value = IntS 85, c_new_value = IntS 0 \<rparr>] \<rparr>,
          SUpdated,
          [\<lparr> c_field = ''price'', c_old_value = IntS 180000, c_new_value = IntS 190000 \<rparr>,
           \<lparr> c_field = ''area'', c_old_value = IntS 85, c_new_value = IntS 0 \<rparr>])"
  by (simp add: add_or_update_property_def update_existing_def ex_listing_def ex_db_def ex_row_def
      extra_of_def core_fields_def listing_item_def existing_item_def update_where_id_def)

section \<open>Properties of the change detector\<close>


lemma upsert_Inr_id:
  "add_or_update_property fault t d pd = Inr res \<Longrightarrow> \<exists>pid. l_id pd = Some pid"
  by (auto simp: add_or_update_property_def split: option.splits)

lemma process_one_Inr:
  assumes "process_one e source n st a = Inr st'"
  shows "\<exists>pid d' stat cs. l_id (bs_heap st a) = Some pid \<and>
     add_or_update_property (db_fault e n) (clock e n) (bs_db st)
        ((bs_heap st a)\<lparr> l_source := Some source \<rparr>) = Inr (d', stat, cs) \<and>
     bs_db st' = d' \<and>
     bs_active_ids st' = bs_active_ids st @ [pid] \<and>
     bs_new st' = bs_new st @ (if stat = SNew then [a] else []) \<and>
     bs_updated st' = bs_updated st @ (if stat = SUpdated \<and> cs \<noteq> [] then [a] else []) \<and>
     bs_heap st' = (bs_heap st)(a := (bs_heap st a)\<lparr> l_source := Some source,
        l_other := (if stat = SUpdated \<and> cs \<noteq> []
                    then AList.update ''changes'' (changes_val cs) (l_other (bs_heap st a))
                    else l_other (bs_heap st a)) \<rparr>)"
proof (cases "add_or_update_property (db_fault e n) (clock e n) (bs_db st)
        ((bs_heap st a)\<lparr> l_source := Some source \<rparr>)")
  case (Inl x)
  then show ?thesis
    using assms by (simp add: process_one_def Let_def)
next
  case (Inr res)
  obtain d' stat cs where res: "res = (d', stat, cs)"
    by (cases res) auto
  from upsert_Inr_id[OF Inr] obtain pid where pid: "l_id (bs_heap st a) = Some pid"
    by auto
  consider "stat = SNew" | "stat \<noteq> SNew" "stat = SUpdated \<and> cs \<noteq> []"
    | "stat \<noteq> SNew" "\<not> (stat = SUpdated \<and> cs \<noteq> [])"
    by blast
  then show ?thesis
  proof cases
    case 1
    then show ?thesis
      using assms Inr res pid by (auto simp: process_one_def Let_def)
  next
    case 2
    then show ?thesis
      using assms Inr res pid by (auto simp: process_one_def Let_def)
  next
    case 3
    then show ?thesis
      using assms Inr res pid by (auto simp: process_one_def Let_def)
  qed
qed



lemma process_one_ids:
  "process_one e source n st a = Inr st' \<Longrightarrow> l_id (bs_heap st' b) = l_id (bs_heap st b)"
  by (drule process_one_Inr) auto

lemma ingest_ids:
  "ingest e source n as st = Inr st' \<Longrightarrow> l_id (bs_heap st' b) = l_id (bs_heap st b)"
proof (induction as arbitrary: n st)
  case Nil
  then show ?case by simp
next
  case (Cons a as)
  then show ?case
    by (auto split: sum.splits dest: process_one_ids)
qed

lemma ingest_active_ids:
  "ingest e source n as st = Inr st' \<Longrightarrow>
     map Some (bs_active_ids st') = map Some (bs_active_ids st) @ map (\<lambda>a. l_id (bs_heap st a)) as"
proof (induction as arbitrary: n st)
  case Nil
  then show ?case by simp
next
  case (Cons a as)
  from Cons.prems obtain st1 where s1: "process_one e source n st a = Inr st1"
    and s2: "ingest e source (Suc n) as st1 = Inr st'"
    by (auto split: sum.splits)
  have "map (\<lambda>a. l_id (bs_heap st1 a)) as = map (\<lambda>a. l_id (bs_heap st a)) as"
    using process_one_ids[OF s1] by simp
  moreover from process_one_Inr[OF s1]
  have "map Some (bs_active_ids st1) = map Some (bs_active_ids st) @ [l_id (bs_heap st a)]"
    by auto
  ultimately show ?case
    using Cons.IH[OF s2] by simp
qed


lemma process_listings_Inr:
  assumes "process_listings e h d listings source = Inr (h', d', res)"
  shows "\<exists>st. ingest e source 0 listings (init_state h d) = Inr st \<and> h' = bs_heap st
     \<and> d' = fst (mark_inactive_properties (db_fault e (length listings))
                 (clock e (length listings)) (bs_db st) (bs_active_ids st) source)
     \<and> r_new res = bs_new st \<and> r_updated res = bs_updated st
     \<and> r_removed res = fetch_removed e (Suc (length listings)) d'
          (snd (mark_inactive_properties (db_fault e (length listings))
                 (clock e (length listings)) (bs_db st) (bs_active_ids st) source))"
  using assms
  by (auto simp: process_listings_def Let_def split: sum.splits prod.splits)

text \<open>
  C2 (amended). For every batch that \<open>process_listings\<close> processes to the end, the list of
  seen ids passed to the inactivation sweep holds the id of every listing of the batch, in
  order, whatever status its upsert returned, the status \<open>error\<close> included. So no entity
  that has a listing in the batch is selected by the sweep of that batch.
\<close>

theorem C2_seen_ids_are_all_ids:
  assumes "process_listings e h d listings source = Inr (h', d', res)"
  shows "\<exists>st. ingest e source 0 listings (init_state h d) = Inr st
     \<and> map Some (bs_active_ids st) = map (\<lambda>a. l_id (h a)) listings
     \<and> d' = fst (mark_inactive_properties (db_fault e (length listings))
                 (clock e (length listings)) (bs_db st) (bs_active_ids st) source)
     \<and> (\<forall>a\<in>set listings. \<forall>pid. l_id (h a) = Some pid \<longrightarrow>
           pid \<notin> set (snd (mark_inactive_properties (db_fault e (length listings))
                 (clock e (length listings)) (bs_db st) (bs_active_ids st) source)))"
proof -
  from process_listings_Inr[OF assms] obtain st where
    st: "ingest e source 0 listings (init_state h d) = Inr st"
    and d': "d' = fst (mark_inactive_properties (db_fault e (length listings))
                 (clock e (length listings)) (bs_db st) (bs_active_ids st) source)"
    by blast
  have ids: "map Some (bs_active_ids st) = map (\<lambda>a. l_id (h a)) listings"
    using ingest_active_ids[OF st] by (simp add: init_state_def)
  have "pid \<notin> set (snd (mark_inactive_properties (db_fault e (length listings))
                 (clock e (length listings)) (bs_db st) (bs_active_ids st) source))"
    if "a \<in> set listings" "l_id (h a) = Some pid" for a pid
  proof -
    have "Some pid \<in> set (map Some (bs_active_ids st))"
      using that ids by force
    then have in_ids: "pid \<in> set (bs_active_ids st)"
      by auto
    then have ne: "bs_active_ids st \<noteq> []"
      by auto
    obtain d2 removed where m: "mark_inactive_properties (db_fault e (length listings))
                 (clock e (length listings)) (bs_db st) (bs_active_ids st) source = (d2, removed)"
      by (cases "mark_inactive_properties (db_fault e (length listings))
                 (clock e (length listings)) (bs_db st) (bs_active_ids st) source") auto
    from mark_inactive_eq(1)[OF m] in_ids ne have "pid \<notin> set removed"
      by (auto split: if_splits)
    with m show ?thesis by simp
  qed
  with st ids d' show ?thesis
    by blast
qed




lemma ex_no_price_upsert:
  "add_or_update_property False ''t2'' ex_db (ex_heap_no_price 0) = Inr (ex_db, SError, [])"
  by (simp add: add_or_update_property_def update_existing_def ex_heap_no_price_def ex_listing_def
      ex_db_def ex_row_def core_fields_def listing_item_def existing_item_def)

lemma ex_no_price_stamped:
  "(ex_heap_no_price 0)\<lparr> l_source := Some ''test_source'' \<rparr> = ex_heap_no_price 0"
  by (simp add: ex_heap_no_price_def ex_listing_def)

lemma ex_no_price_ingest:
  "ingest ex_env ''test_source'' 0 [0] (init_state ex_heap_no_price ex_db) =
     Inr \<lparr> bs_heap = ex_heap_no_price, bs_db = ex_db, bs_new = [], bs_updated = [],
           bs_active_ids = [''test_property_2''] \<rparr>"
proof -
  have "l_id (ex_heap_no_price 0) = Some ''test_property_2''"
    by (simp add: ex_heap_no_price_def ex_listing_def)
  then show ?thesis
    by (simp add: process_one_def init_state_def ex_env_def ex_no_price_stamped ex_no_price_upsert)
qed

lemma ex_no_price_batch:
  "process_listings ex_env ex_heap_no_price ex_db [0] ''test_source'' =
     Inr (ex_heap_no_price, ex_db, \<lparr> r_new = [], r_updated = [], r_removed = [] \<rparr>)"
  unfolding process_listings_def ex_no_price_ingest
  by (simp add: mark_inactive_properties_def ex_env_def ex_db_def ex_row_def)

text \<open>
  The price of the known property could not be parsed, so the listing carries \<open>None\<close>: the
  UPDATE violates NOT NULL, the upsert returns \<open>error\<close> and the stored row stays as it
  was. Its id is still counted as seen, and the sweep of the batch removes nothing; had the
  id not been counted, the sweep would have deactivated the row (last conjunct).
\<close>

theorem C2_failed_upsert_counterexample:
  "add_or_update_property False ''t2'' ex_db (ex_heap_no_price 0) = Inr (ex_db, SError, [])
   \<and> ingest ex_env ''test_source'' 0 [0] (init_state ex_heap_no_price ex_db) =
       Inr \<lparr> bs_heap = ex_heap_no_price, bs_db = ex_db, bs_new = [], bs_updated = [],
             bs_active_ids = [''test_property_2''] \<rparr>
   \<and> process_listings ex_env ex_heap_no_price ex_db [0] ''test_source'' =
       Inr (ex_heap_no_price, ex_db, \<lparr> r_new = [], r_updated = [], r_removed = [] \<rparr>)
   \<and> mark_inactive_properties False ''t2'' ex_db [] ''test_source'' =
       (\<lparr> properties = [ex_row\<lparr> p_active := False, p_last_updated := ''t2'' \<rparr>],
          property_history = property_history ex_db @ [inactive_entry ''test_property_2'' ''t2''] \<rparr>,
        [''test_property_2''])"
  using ex_no_price_upsert ex_no_price_ingest ex_no_price_batch
  by (simp add: mark_inactive_properties_def deactivate_one_def update_where_id_def ex_db_def
      ex_row_def)

text \<open>The same batch: the list of seen ids holds the id of the failed listing.\<close>

theorem C2_seen_ids_witness:
  "bs_active_ids (projr (ingest ex_env ''test_source'' 0 [0] (init_state ex_heap_no_price ex_db))) =
     [''test_property_2'']"
proof -
  from C2_seen_ids_are_all_ids[OF ex_no_price_batch] obtain st where
    "ingest ex_env ''test_source'' 0 [0] (init_state ex_heap_no_price ex_db) = Inr st"
    "map Some (bs_active_ids st) = map (\<lambda>a. l_id (ex_heap_no_price a)) [0]"
    by blast
  then show ?thesis
    by (auto simp: ex_heap_no_price_def ex_listing_def)
qed





lemma process_one_frame:
  "process_one e source n st a = Inr st' \<Longrightarrow> b \<noteq> a \<Longrightarrow> bs_heap st' b = bs_heap st b"
  by (drule process_one_Inr) auto

lemma process_one_source:
  "process_one e source n st a = Inr st' \<Longrightarrow> l_source (bs_heap st' a) = Some source"
  by (drule process_one_Inr) auto

lemma process_one_changes_key:
  assumes "process_one e source n st a = Inr st'"
    and "\<forall>b\<in>set (bs_updated st). \<exists>cs. cs \<noteq> [] \<and>
            map_of (l_other (bs_heap st b)) ''changes'' = Some (changes_val cs)"
  shows "\<forall>b\<in>set (bs_updated st'). \<exists>cs. cs \<noteq> [] \<and>
            map_of (l_other (bs_heap st' b)) ''changes'' = Some (changes_val cs)"
proof -
  from process_one_Inr[OF assms(1)] obtain stat cs where
    u: "bs_updated st' = bs_updated st @ (if stat = SUpdated \<and> cs \<noteq> [] then [a] else [])"
    and h: "bs_heap st' = (bs_heap st)(a := (bs_heap st a)\<lparr> l_source := Some source,
        l_other := (if stat = SUpdated \<and> cs \<noteq> []
                    then AList.update ''changes'' (changes_val cs) (l_other (bs_heap st a))
                    else l_other (bs_heap st a)) \<rparr>)"
    by blast
  show ?thesis
  proof
    fix b assume b: "b \<in> set (bs_updated st')"
    show "\<exists>cs. cs \<noteq> [] \<and> map_of (l_other (bs_heap st' b)) ''changes'' = Some (changes_val cs)"
    proof (cases "stat = SUpdated \<and> cs \<noteq> []")
      case True
      show ?thesis
      proof (cases "b = a")
        case True
        with \<open>stat = SUpdated \<and> cs \<noteq> []\<close> h show ?thesis
          by (auto simp: update_conv')
      next
        case False
        with b u h assms(2) show ?thesis by (auto split: if_splits)
      qed
    next
      case False
      with b u have "b \<in> set (bs_updated st)" by auto
      with assms(2) obtain cs' where "cs' \<noteq> []"
        "map_of (l_other (bs_heap st b)) ''changes'' = Some (changes_val cs')" by blast
      with False h show ?thesis by (cases "b = a") auto
    qed
  qed
qed

lemma ingest_frame:
  "ingest e source n as st = Inr st' \<Longrightarrow> b \<notin> set as \<Longrightarrow> bs_heap st' b = bs_heap st b"
proof (induction as arbitrary: n st)
  case Nil
  then show ?case by simp
next
  case (Cons a as)
  then show ?case
    by (auto split: sum.splits dest: process_one_frame)
qed

lemma ingest_source:
  "ingest e source n as st = Inr st' \<Longrightarrow> a \<in> set as \<Longrightarrow> l_source (bs_heap st' a) = Some source"
proof (induction as arbitrary: n st)
  case Nil
  then show ?case by simp
next
  case (Cons b bs)
  from Cons.prems(1) obtain st1 where s1: "process_one e source n st b = Inr st1"
    and s2: "ingest e source (Suc n) bs st1 = Inr st'"
    by (auto split: sum.splits)
  show ?case
  proof (cases "a \<in> set bs")
    case True
    then show ?thesis using Cons.IH[OF s2] by simp
  next
    case False
    with Cons.prems(2) have "a = b" by simp
    with False ingest_frame[OF s2] process_one_source[OF s1] show ?thesis by simp
  qed
qed

lemma ingest_lists:
  "ingest e source n as st = Inr st' \<Longrightarrow>
     \<exists>ns us. bs_new st' = bs_new st @ ns \<and> subseq ns as \<and>
             bs_updated st' = bs_updated st @ us \<and> subseq us as"
proof (induction as arbitrary: n st)
  case Nil
  then show ?case by simp
next
  case (Cons b bs)
  from Cons.prems(1) obtain st1 where s1: "process_one e source n st b = Inr st1"
    and s2: "ingest e source (Suc n) bs st1 = Inr st'"
    by (auto split: sum.splits)
  from Cons.IH[OF s2] obtain ns us where r: "bs_new st' = bs_new st1 @ ns" "subseq ns bs"
    "bs_updated st' = bs_updated st1 @ us" "subseq us bs"
    by blast
  from process_one_Inr[OF s1] obtain stat and cs :: "change list" where
    p: "bs_new st1 = bs_new st @ (if stat = SNew then [b] else [])"
       "bs_updated st1 = bs_updated st @ (if stat = SUpdated \<and> cs \<noteq> [] then [b] else [])"
    by blast
  have "subseq ((if stat = SNew then [b] else []) @ ns) (b # bs)"
    using r(2) by auto
  moreover have "subseq ((if stat = SUpdated \<and> cs \<noteq> [] then [b] else []) @ us) (b # bs)"
    using r(4) by auto
  ultimately show ?case
    using r(1,3) p by (metis append.assoc)
qed

lemma ingest_changes_key:
  "ingest e source n as st = Inr st' \<Longrightarrow>
     \<forall>b\<in>set (bs_updated st). \<exists>cs. cs \<noteq> [] \<and>
            map_of (l_other (bs_heap st b)) ''changes'' = Some (changes_val cs) \<Longrightarrow>
     \<forall>b\<in>set (bs_updated st'). \<exists>cs. cs \<noteq> [] \<and>
            map_of (l_other (bs_heap st' b)) ''changes'' = Some (changes_val cs)"
proof (induction as arbitrary: n st)
  case Nil
  then show ?case by simp
next
  case (Cons a as)
  from Cons.prems(1) obtain st1 where s1: "process_one e source n st a = Inr st1"
    and s2: "ingest e source (Suc n) as st1 = Inr st'"
    by (auto split: sum.splits)
  from Cons.IH[OF s2 process_one_changes_key[OF s1 Cons.prems(2)]] show ?case .
qed

lemma ex_batch_step0:
  "process_one ex_env ''test_source'' 0 (init_state ex_heap_batch ex_db) 0 =
     Inr \<lparr> bs_heap = ex_heap_batch(0 := ex_listing\<lparr> l_price := Py 190000,
               l_other := [(''changes'', changes_val
                  [\<lparr> c_field = ''price'', c_old_value = IntS 180000, c_new_value = IntS 190000 \<rparr>])] \<rparr>),
           bs_db = \<lparr> properties = [ex_row\<lparr> p_price := 190000, p_last_seen := ''t2'',
                                          p_last_updated := ''t2'' \<rparr>],
                     property_history = property_history ex_db @
                       [changed_entry ''test_property_2'' ''t2''
                          \<lparr> c_field = ''price'', c_old_value = IntS 180000,
                            c_new_value = IntS 190000 \<rparr>] \<rparr>,
           bs_new = [], bs_updated = [0], bs_active_ids = [''test_property_2''] \<rparr>"
  by (simp add: process_one_def init_state_def ex_env_def ex_heap_batch_def
      add_or_update_property_def update_existing_def ex_listing_def ex_db_def ex_row_def
      extra_of_def core_fields_def listing_item_def existing_item_def update_where_id_def)

lemma ex_batch_returns:
  "\<not> isl (process_listings ex_env ex_heap_batch ex_db [0, 1] ''test_source'')"
  unfolding process_listings_def ingest.simps ex_batch_step0
  by (simp add: process_one_def ex_env_def ex_heap_batch_def
      add_or_update_property_def insert_new_def ex_listing_def ex_db_def ex_row_def
      extra_of_def Let_def split: prod.splits)

lemma find_append_other: "\<not> P x \<Longrightarrow> find P (xs @ [x]) = find P xs"
  by (induction xs) auto

lemma find_map_same:
  assumes "\<And>r. p_id (f r) = p_id r" and "\<And>r. p_id r = pid \<Longrightarrow> f r = r"
  shows "find (\<lambda>r. p_id r = pid) (map f rows) = find (\<lambda>r. p_id r = pid) rows"
  using assms by (induction rows) auto

lemma upsert_SError:
  "add_or_update_property fault t d pd = Inr (d', SError, cs) \<Longrightarrow> d' = d"
  by (auto simp: add_or_update_property_def Let_def split: option.splits if_splits
      dest: update_existing_cases insert_new_cases)

lemma upsert_SUnchanged:
  assumes "add_or_update_property fault t d pd = Inr (d', SUnchanged, cs)"
  shows "\<exists>pid. l_id pd = Some pid \<and>
           d' = d\<lparr> properties := update_where_id pid
                     (\<lambda>r. r\<lparr> p_last_seen := t, p_active := True \<rparr>) (properties d) \<rparr>"
  using assms
  by (auto simp: add_or_update_property_def Let_def split: option.splits if_splits
      dest: update_existing_cases insert_new_cases)

lemma upsert_other_row:
  assumes "add_or_update_property fault t d pd = Inr (d', stat, cs)"
    and "l_id pd = Some q" and "q \<noteq> pid"
  shows "find (\<lambda>r. p_id r = pid) (properties d') = find (\<lambda>r. p_id r = pid) (properties d)"
proof (cases stat)
  case SNew
  with assms(1) obtain q' where "l_id pd = Some q'" "insert_new t d q' pd = Inr (d', SNew, cs)"
    using upsert_SNew by blast
  with insert_new_SNew[of t d q' pd d' cs] assms(2,3) show ?thesis
    by (auto simp: find_append_other)
next
  case SUpdated
  with assms(1) obtain q' ex where q': "l_id pd = Some q'"
    and ue: "update_existing t d q' pd (detect_changes ex pd core_fields) = Inr (d', SUpdated, cs)"
    using upsert_SUpdated by blast
  from update_existing_SUpdated[OF ue] obtain upd where
    "properties d' = update_where_id q' upd (properties d)" "\<And>r. p_id (upd r) = p_id r"
    by auto
  moreover have "q' = q" using q' assms(2) by simp
  ultimately show ?thesis
    using assms(3) by (auto simp: update_where_id_def intro!: find_map_same)
next
  case SUnchanged
  with upsert_SUnchanged[of fault t d pd d' cs] assms show ?thesis
    by (auto simp: update_where_id_def intro!: find_map_same)
next
  case SError
  with upsert_SError[of fault t d pd d' cs] assms(1) show ?thesis
    by simp
qed

lemma ingest_other_row:
  "ingest e source n as st = Inr st' \<Longrightarrow> \<forall>a\<in>set as. l_id (bs_heap st a) \<noteq> Some pid \<Longrightarrow>
     find (\<lambda>r. p_id r = pid) (properties (bs_db st')) =
     find (\<lambda>r. p_id r = pid) (properties (bs_db st))"
proof (induction as arbitrary: n st)
  case Nil
  then show ?case by simp
next
  case (Cons a as)
  from Cons.prems(1) obtain st1 where s1: "process_one e source n st a = Inr st1"
    and s2: "ingest e source (Suc n) as st1 = Inr st'"
    by (auto split: sum.splits)
  from process_one_Inr[OF s1] obtain q d1 stat cs where
    q: "l_id (bs_heap st a) = Some q"
    and u: "add_or_update_property (db_fault e n) (clock e n) (bs_db st)
              ((bs_heap st a)\<lparr> l_source := Some source \<rparr>) = Inr (d1, stat, cs)"
    and d1: "bs_db st1 = d1"
    by blast
  have "q \<noteq> pid" using q Cons.prems(2) by auto
  then have "find (\<lambda>r. p_id r = pid) (properties (bs_db st1)) =
             find (\<lambda>r. p_id r = pid) (properties (bs_db st))"
    using upsert_other_row[OF u, of q pid] q d1 by simp
  moreover have "\<forall>b\<in>set as. l_id (bs_heap st1 b) \<noteq> Some pid"
    using Cons.prems(2) process_one_ids[OF s1] by simp
  ultimately show ?case
    using Cons.IH[OF s2] by simp
qed

lemma ingest_append:
  "ingest e source n (xs @ ys) st =
     (case ingest e source n xs st of Inl x \<Rightarrow> Inl x
      | Inr st1 \<Rightarrow> ingest e source (n + length xs) ys st1)"
  by (induction xs arbitrary: n st) (auto split: sum.splits)

lemma listing_item_source:
  "listing_item (pd\<lparr> l_source := s \<rparr>) f = listing_item pd f"
  by (simp add: listing_item_def)

lemma detect_changes_source:
  "detect_changes ex (pd\<lparr> l_source := s \<rparr>) fs = detect_changes ex pd fs"
  by (induction fs) (auto simp: listing_item_source split: option.splits)

lemma mark_inactive_keeps_seen:
  assumes "pid \<in> set active_ids"
  shows "find (\<lambda>r. p_id r = pid)
           (properties (fst (mark_inactive_properties fault t d active_ids source))) =
         find (\<lambda>r. p_id r = pid) (properties d)"
proof -
  obtain d2 removed where m: "mark_inactive_properties fault t d active_ids source = (d2, removed)"
    by (cases "mark_inactive_properties fault t d active_ids source") auto
  from assms have ne: "active_ids \<noteq> []" by auto
  from mark_inactive_eq(1)[OF m] assms ne have "pid \<notin> set removed"
    by (auto split: if_splits)
  then have "find (\<lambda>r. p_id r = pid) (properties d2) = find (\<lambda>r. p_id r = pid) (properties d)"
    unfolding mark_inactive_eq(2)[OF m] by (intro find_map_same) auto
  with m show ?thesis by simp
qed

lemma subseq_set: "subseq xs ys \<Longrightarrow> set xs \<subseteq> set ys"
  by (induction rule: list_emb.induct) auto

text \<open>
  C5 (amended). The store holds a deactivated row for an id. A batch that is processed to the end has
  exactly one listing with that id, at position \<open>k\<close>; every core field the listing carries
  equals the stored value, and the database works for the upsert. Then that upsert returns
  \<open>unchanged\<close>, the listing object is in neither the \<open>new\<close> nor the \<open>updated\<close> list of
  the result, and after the batch the row is the stored one with \<open>last_seen\<close> bumped and
  \<open>active\<close> true again.
\<close>

theorem C5_reactivation_unchanged:
  assumes "process_listings e h d listings source = Inr (h', d', res)"
    and "k < length listings" and "listings ! k = a"
    and "l_id (h a) = Some pid"
    and "\<forall>j<length listings. j \<noteq> k \<longrightarrow> l_id (h (listings ! j)) \<noteq> Some pid"
    and "find (\<lambda>r. p_id r = pid) (properties d) = Some ex"
    and "\<not> p_active ex"
    and "\<forall>f\<in>set core_fields. \<forall>nv. listing_item (h a) f = Some nv \<longrightarrow> nv = existing_item ex f"
    and "\<not> db_fault e k"
  shows "(\<exists>st1 d1. ingest e source 0 (take k listings) (init_state h d) = Inr st1
            \<and> add_or_update_property (db_fault e k) (clock e k) (bs_db st1)
                 ((bs_heap st1 a)\<lparr> l_source := Some source \<rparr>) = Inr (d1, SUnchanged, []))
       \<and> find (\<lambda>r. p_id r = pid) (properties d') =
           Some (ex\<lparr> p_last_seen := clock e k, p_active := True \<rparr>)
       \<and> a \<notin> set (r_new res) \<and> a \<notin> set (r_updated res)"
proof -
  define pre where "pre = take k listings"
  define post where "post = drop (Suc k) listings"
  have split: "listings = pre @ a # post"
    unfolding pre_def post_def using id_take_nth_drop[OF assms(2)] assms(3) by simp
  have len: "length pre = k"
    unfolding pre_def using assms(2) by simp
  have pre_ids: "\<forall>b\<in>set pre. l_id (h b) \<noteq> Some pid"
  proof
    fix b assume "b \<in> set pre"
    then obtain j where "j < k" "b = listings ! j"
      unfolding pre_def using assms(2) by (auto simp: in_set_conv_nth)
    with assms(2,5) show "l_id (h b) \<noteq> Some pid" by auto
  qed
  have post_ids: "\<forall>b\<in>set post. l_id (h b) \<noteq> Some pid"
  proof
    fix b assume "b \<in> set post"
    then obtain j where "j < length listings - Suc k" "b = listings ! (Suc k + j)"
      unfolding post_def by (auto simp: in_set_conv_nth)
    with assms(5) show "l_id (h b) \<noteq> Some pid" by auto
  qed
  have a_pre: "a \<notin> set pre" and a_post: "a \<notin> set post"
    using pre_ids post_ids assms(4) by auto
  from process_listings_Inr[OF assms(1)] obtain st where
    st: "ingest e source 0 listings (init_state h d) = Inr st"
    and d': "d' = fst (mark_inactive_properties (db_fault e (length listings))
                 (clock e (length listings)) (bs_db st) (bs_active_ids st) source)"
    and n: "r_new res = bs_new st" and u: "r_updated res = bs_updated st"
    by blast
  from st obtain st1 st2 where
    s1: "ingest e source 0 pre (init_state h d) = Inr st1"
    and s2: "process_one e source k st1 a = Inr st2"
    and s3: "ingest e source (Suc k) post st2 = Inr st"
    unfolding split by (auto simp: ingest_append len split: sum.splits)
  have heap1: "bs_heap st1 a = h a"
    using ingest_frame[OF s1 a_pre] by (simp add: init_state_def)
  have row1: "find (\<lambda>r. p_id r = pid) (properties (bs_db st1)) = Some ex"
    using ingest_other_row[OF s1, of pid] pre_ids assms(6) by (simp add: init_state_def)
  have nochange: "detect_changes ex ((h a)\<lparr> l_source := Some source \<rparr>) core_fields = []"
    using assms(8) detect_changes_nonempty[of ex "h a" core_fields]
    by (auto simp: detect_changes_source)
  let ?d1 = "(bs_db st1)\<lparr> properties := update_where_id pid
               (\<lambda>r. r\<lparr> p_last_seen := clock e k, p_active := True \<rparr>) (properties (bs_db st1)) \<rparr>"
  have upsert: "add_or_update_property (db_fault e k) (clock e k) (bs_db st1)
                 ((bs_heap st1 a)\<lparr> l_source := Some source \<rparr>) = Inr (?d1, SUnchanged, [])"
    using assms(4,9) row1 nochange heap1 by (simp add: add_or_update_property_def)
  from process_one_Inr[OF s2] upsert have
    db2: "bs_db st2 = ?d1" and new2: "bs_new st2 = bs_new st1"
    and upd2: "bs_updated st2 = bs_updated st1"
    and act2: "bs_active_ids st2 = bs_active_ids st1 @ [pid]"
    using assms(4) heap1 by auto
  have "p_id ex = pid"
    using assms(6) by (rule find_Some_id)
  then have row2: "find (\<lambda>r. p_id r = pid) (properties (bs_db st2)) =
                     Some (ex\<lparr> p_last_seen := clock e k, p_active := True \<rparr>)"
    using row1 db2 by (simp add: find_update_where_id)
  have ids2: "\<forall>b\<in>set post. l_id (bs_heap st2 b) \<noteq> Some pid"
    using post_ids process_one_ids[OF s2] ingest_ids[OF s1] by (simp add: init_state_def)
  have row3: "find (\<lambda>r. p_id r = pid) (properties (bs_db st)) =
                Some (ex\<lparr> p_last_seen := clock e k, p_active := True \<rparr>)"
    using ingest_other_row[OF s3 ids2] row2 by simp
  have "Some pid \<in> set (map Some (bs_active_ids st))"
    using ingest_active_ids[OF s3] act2 by simp
  then have seen: "pid \<in> set (bs_active_ids st)"
    by auto
  have final: "find (\<lambda>r. p_id r = pid) (properties d') =
                 Some (ex\<lparr> p_last_seen := clock e k, p_active := True \<rparr>)"
    unfolding d' using mark_inactive_keeps_seen[OF seen] row3 by simp
  from ingest_lists[OF s1] obtain ns1 us1 where
    l1: "bs_new st1 = ns1" "subseq ns1 pre" "bs_updated st1 = us1" "subseq us1 pre"
    by (auto simp: init_state_def)
  from ingest_lists[OF s3] obtain ns3 us3 where
    l3: "bs_new st = bs_new st2 @ ns3" "subseq ns3 post"
        "bs_updated st = bs_updated st2 @ us3" "subseq us3 post"
    by blast
  have "a \<notin> set (bs_new st)" "a \<notin> set (bs_updated st)"
    using l1 l3 new2 upd2 a_pre a_post subseq_set by auto
  with s1 upsert final n u show ?thesis
    unfolding pre_def by auto
qed

lemma ex_same_returns:
  "\<not> isl (process_listings ex_env ex_heap_same ex_db_inactive [0] ''test_source'')"
  by (simp add: process_listings_def init_state_def process_one_def ex_env_def ex_heap_same_def
      add_or_update_property_def ex_listing_def ex_db_inactive_def ex_db_def ex_row_def
      core_fields_def listing_item_def existing_item_def update_where_id_def Let_def
      split: prod.splits)

text \<open>The deactivated example row comes back in a batch of one listing that equals it.\<close>

theorem C5_reactivation_witness:
  "0 \<notin> set (r_new (snd (snd (projr
      (process_listings ex_env ex_heap_same ex_db_inactive [0] ''test_source'')))))
   \<and> 0 \<notin> set (r_updated (snd (snd (projr
      (process_listings ex_env ex_heap_same ex_db_inactive [0] ''test_source'')))))
   \<and> map p_active (properties ex_db_inactive) = [False]"
proof -
  let ?R = "process_listings ex_env ex_heap_same ex_db_inactive [0] ''test_source''"
  have h1: "?R = Inr (fst (projr ?R), fst (snd (projr ?R)), snd (snd (projr ?R)))"
    using ex_same_returns by (cases ?R) auto
  have h2: "(0::nat) < length [0::nat]" and h3: "[0::nat] ! 0 = 0"
    by simp_all
  have h4: "l_id (ex_heap_same 0) = Some ''test_property_2''"
    by (simp add: ex_heap_same_def ex_listing_def)
  have h5: "\<forall>j<length [0::nat]. j \<noteq> 0 \<longrightarrow> l_id (ex_heap_same ([0] ! j)) \<noteq> Some ''test_property_2''"
    by simp
  have h6: "find (\<lambda>r. p_id r = ''test_property_2'') (properties ex_db_inactive) =
              Some (ex_row\<lparr> p_active := False, p_last_updated := ''t3'' \<rparr>)"
    by (simp add: ex_db_inactive_def ex_row_def)
  have h7: "\<not> p_active (ex_row\<lparr> p_active := False, p_last_updated := ''t3'' \<rparr>)"
    by simp
  have h8: "\<forall>f\<in>set core_fields. \<forall>nv. listing_item (ex_heap_same 0) f = Some nv \<longrightarrow>
              nv = existing_item (ex_row\<lparr> p_active := False, p_last_updated := ''t3'' \<rparr>) f"
    by (simp add: core_fields_def listing_item_def existing_item_def ex_heap_same_def
        ex_listing_def ex_row_def)
  have h9: "\<not> db_fault ex_env 0"
    by (simp add: ex_env_def)
  from C5_reactivation_unchanged[OF h1 h2 h3 h4 h5 h6 h7 h8 h9] show ?thesis
    by (simp add: ex_db_inactive_def)
qed

lemma ex_dup_step0:
  "process_one ex_env ''test_source'' 0 (init_state ex_heap_dup ex_db_inactive) 0 =
     Inr \<lparr> bs_heap = ex_heap_dup(0 := ex_listing\<lparr> l_price := Py 190000,
               l_other := [(''changes'', changes_val
                  [\<lparr> c_field = ''price'', c_old_value = IntS 180000, c_new_value = IntS 190000 \<rparr>])] \<rparr>),
           bs_db = \<lparr> properties = [ex_row\<lparr> p_price := 190000, p_last_seen := ''t2'',
                                          p_last_updated := ''t2'' \<rparr>],
                     property_history = property_history ex_db_inactive @
                       [changed_entry ''test_property_2'' ''t2''
                          \<lparr> c_field = ''price'', c_old_value = IntS 180000,
                            c_new_value = IntS 190000 \<rparr>] \<rparr>,
           bs_new = [], bs_updated = [0], bs_active_ids = [''test_property_2''] \<rparr>"
  by (simp add: process_one_def init_state_def ex_env_def ex_heap_dup_def
      add_or_update_property_def update_existing_def ex_listing_def ex_db_inactive_def ex_db_def
      ex_row_def extra_of_def core_fields_def listing_item_def existing_item_def update_where_id_def)

text \<open>
  The deactivated row has price 180000. A batch carries its id twice: object 0 with price
  190000, object 1 with every core field equal to the stored row. Object 0 is upserted
  first and rewrites the row, so the upsert of object 1 finds a different price, returns
  \<open>updated\<close>, and object 1 is in the \<open>updated\<close> list.
\<close>

theorem C5_second_listing_counterexample:
  "r_updated (snd (snd (projr
      (process_listings ex_env ex_heap_dup ex_db_inactive [0, 1] ''test_source'')))) = [0, 1]
   \<and> \<not> isl (process_listings ex_env ex_heap_dup ex_db_inactive [0, 1] ''test_source'')
   \<and> l_id (ex_heap_dup 1) = Some ''test_property_2''
   \<and> properties ex_db_inactive = [ex_row\<lparr> p_active := False, p_last_updated := ''t3'' \<rparr>]
   \<and> detect_changes (ex_row\<lparr> p_active := False, p_last_updated := ''t3'' \<rparr>) (ex_heap_dup 1)
       core_fields = []"
proof -
  have "r_updated (snd (snd (projr
      (process_listings ex_env ex_heap_dup ex_db_inactive [0, 1] ''test_source'')))) = [0, 1]
   \<and> \<not> isl (process_listings ex_env ex_heap_dup ex_db_inactive [0, 1] ''test_source'')"
    unfolding process_listings_def ingest.simps ex_dup_step0
    by (simp add: process_one_def ex_env_def ex_heap_dup_def
      add_or_update_property_def update_existing_def ex_listing_def ex_db_inactive_def ex_db_def
      ex_row_def extra_of_def core_fields_def listing_item_def existing_item_def update_where_id_def
      mark_inactive_properties_def Let_def split: prod.splits)
  moreover have "l_id (ex_heap_dup 1) = Some ''test_property_2''"
    by (simp add: ex_heap_dup_def ex_listing_def)
  moreover have "properties ex_db_inactive = [ex_row\<lparr> p_active := False, p_last_updated := ''t3'' \<rparr>]"
    by (simp add: ex_db_inactive_def)
  moreover have "detect_changes (ex_row\<lparr> p_active := False, p_last_updated := ''t3'' \<rparr>)
       (ex_heap_dup 1) core_fields = []"
    by (simp add: ex_heap_dup_def ex_listing_def ex_row_def core_fields_def listing_item_def
        existing_item_def)
  ultimately show ?thesis by blast
qed

section \<open>The store never writes a table key into \<open>extra_data\<close>\<close>

text \<open>
  The empty database is clean, every operation of the store keeps a database clean, and in
  a clean row the dictionary \<open>existing_data\<close> of the source (columns, updated with the
  parsed \<open>extra_data\<close>) holds the column at every core field.
\<close>

lemma clean_extra_empty: "clean_extra empty_db"
  by (simp add: clean_extra_def empty_db_def)

lemma extra_of_clean: "list_all (\<lambda>(k, v). k \<notin> set table_keys) (extra_of pd)"
  by (auto simp: extra_of_def list_all_iff)

lemma row_dict_core:
  "f \<in> set core_fields \<Longrightarrow> map_of (row_dict ex) f = Some (Scalar (existing_item ex f))"
  unfolding core_fields_def
  by (elim disjE | simp only: set_simps insert_iff empty_iff)+
     (simp_all add: row_dict_def existing_item_def)

lemma existing_data_core:
  assumes "list_all (\<lambda>(k, v). k \<notin> set table_keys) (p_extra_data ex)"
    and "f \<in> set core_fields"
  shows "(map_of (row_dict ex) ++ map_of (p_extra_data ex)) f = Some (Scalar (existing_item ex f))"
proof -
  have "f \<in> set table_keys"
    using assms(2) by (auto simp: core_fields_def table_keys_def)
  then have "map_of (p_extra_data ex) f = None"
    using assms(1) by (auto simp: map_of_eq_None_iff list_all_iff)
  then show ?thesis
    using row_dict_core[OF assms(2)] by (simp add: map_add_def)
qed

lemma clean_rows_map:
  assumes "list_all (\<lambda>r. list_all Q (p_extra_data r)) rows"
    and "\<And>r. list_all Q (p_extra_data r) \<Longrightarrow> list_all Q (p_extra_data (f r))"
  shows "list_all (\<lambda>r. list_all Q (p_extra_data r)) (map f rows)"
  using assms by (induction rows) auto

lemma clean_extra_upsert:
  assumes "clean_extra d" and "add_or_update_property fault t d pd = Inr (d', stat, cs)"
  shows "clean_extra d'"
proof (cases stat)
  case SNew
  with assms(2) obtain q where "insert_new t d q pd = Inr (d', SNew, cs)"
    using upsert_SNew by blast
  from insert_new_SNew[OF this] assms(1) show ?thesis
    by (auto simp: clean_extra_def extra_of_clean)
next
  case SUpdated
  with assms(2) obtain q ex where
    "update_existing t d q pd (detect_changes ex pd core_fields) = Inr (d', SUpdated, cs)"
    using upsert_SUpdated by blast
  from update_existing_SUpdated[OF this] obtain upd where
    p: "properties d' = update_where_id q upd (properties d)"
    and e: "\<And>r. p_extra_data (upd r) = extra_of pd"
    by auto
  show ?thesis
    unfolding clean_extra_def p update_where_id_def
    by (rule clean_rows_map) (use assms(1) in \<open>auto simp: clean_extra_def e extra_of_clean\<close>)
next
  case SUnchanged
  with upsert_SUnchanged[of fault t d pd d' cs] assms(2) obtain q where
    p: "properties d' = update_where_id q (\<lambda>r. r\<lparr> p_last_seen := t, p_active := True \<rparr>) (properties d)"
    by auto
  show ?thesis
    unfolding clean_extra_def p update_where_id_def
    by (rule clean_rows_map) (use assms(1) in \<open>auto simp: clean_extra_def\<close>)
next
  case SError
  with upsert_SError[of fault t d pd d' cs] assms show ?thesis
    by simp
qed

lemma clean_extra_sweep:
  assumes "clean_extra d"
  shows "clean_extra (fst (mark_inactive_properties fault t d active_ids source))"
proof -
  obtain d2 removed where m: "mark_inactive_properties fault t d active_ids source = (d2, removed)"
    by (cases "mark_inactive_properties fault t d active_ids source") auto
  have "clean_extra d2"
    unfolding clean_extra_def mark_inactive_eq(2)[OF m]
    by (rule clean_rows_map) (use assms in \<open>auto simp: clean_extra_def\<close>)
  with m show ?thesis by simp
qed

section \<open>The objects of a batch, mutated and returned\<close>

lemma ingest_snoc:
  "ingest e source n (xs @ [x]) st = Inr st' \<Longrightarrow>
     \<exists>s1. ingest e source n xs st = Inr s1 \<and> process_one e source (n + length xs) s1 x = Inr st'"
  by (auto simp: ingest_append split: sum.splits)

lemma ingest_outcomes:
  "ingest e source n as st = Inr st' \<Longrightarrow>
   \<exists>outs. length outs = length as
     \<and> (\<forall>k<length as. \<exists>sk sk' d1.
           ingest e source n (take k as) st = Inr sk
         \<and> add_or_update_property (db_fault e (n + k)) (clock e (n + k)) (bs_db sk)
              ((bs_heap sk (as ! k))\<lparr> l_source := Some source \<rparr>) = Inr (d1, outs ! k)
         \<and> ingest e source n (take (Suc k) as) st = Inr sk'
         \<and> bs_heap sk' = (bs_heap sk)(as ! k := (bs_heap sk (as ! k))\<lparr> l_source := Some source,
              l_other := (if fst (outs ! k) = SUpdated \<and> snd (outs ! k) \<noteq> []
                          then AList.update ''changes'' (changes_val (snd (outs ! k)))
                                 (l_other (bs_heap sk (as ! k)))
                          else l_other (bs_heap sk (as ! k))) \<rparr>))
     \<and> bs_new st' = bs_new st @
           map fst (filter (\<lambda>(a, stat, cs). stat = SNew) (zip as outs))
     \<and> bs_updated st' = bs_updated st @
           map fst (filter (\<lambda>(a, stat, cs). stat = SUpdated \<and> cs \<noteq> []) (zip as outs))"
proof (induction as arbitrary: st' rule: rev_induct)
  case Nil
  then show ?case by simp
next
  case (snoc x xs)
  from ingest_snoc[OF snoc.prems] obtain s1 where
    s1: "ingest e source n xs st = Inr s1"
    and p: "process_one e source (n + length xs) s1 x = Inr st'"
    by blast
  from snoc.IH[OF s1] obtain outs where
    len: "length outs = length xs"
    and steps: "\<forall>k<length xs. \<exists>sk sk' d1.
           ingest e source n (take k xs) st = Inr sk
         \<and> add_or_update_property (db_fault e (n + k)) (clock e (n + k)) (bs_db sk)
              ((bs_heap sk (xs ! k))\<lparr> l_source := Some source \<rparr>) = Inr (d1, outs ! k)
         \<and> ingest e source n (take (Suc k) xs) st = Inr sk'
         \<and> bs_heap sk' = (bs_heap sk)(xs ! k := (bs_heap sk (xs ! k))\<lparr> l_source := Some source,
              l_other := (if fst (outs ! k) = SUpdated \<and> snd (outs ! k) \<noteq> []
                          then AList.update ''changes'' (changes_val (snd (outs ! k)))
                                 (l_other (bs_heap sk (xs ! k)))
                          else l_other (bs_heap sk (xs ! k))) \<rparr>)"
    and new1: "bs_new s1 = bs_new st @
           map fst (filter (\<lambda>(a, stat, cs). stat = SNew) (zip xs outs))"
    and upd1: "bs_updated s1 = bs_updated st @
           map fst (filter (\<lambda>(a, stat, cs). stat = SUpdated \<and> cs \<noteq> []) (zip xs outs))"
    by blast
  from process_one_Inr[OF p] obtain d1 stat and cs :: "change list" where
    u: "add_or_update_property (db_fault e (n + length xs)) (clock e (n + length xs)) (bs_db s1)
          ((bs_heap s1 x)\<lparr> l_source := Some source \<rparr>) = Inr (d1, stat, cs)"
    and new2: "bs_new st' = bs_new s1 @ (if stat = SNew then [x] else [])"
    and upd2: "bs_updated st' = bs_updated s1 @ (if stat = SUpdated \<and> cs \<noteq> [] then [x] else [])"
    and heap2: "bs_heap st' = (bs_heap s1)(x := (bs_heap s1 x)\<lparr> l_source := Some source,
        l_other := (if stat = SUpdated \<and> cs \<noteq> []
                    then AList.update ''changes'' (changes_val cs) (l_other (bs_heap s1 x))
                    else l_other (bs_heap s1 x)) \<rparr>)"
    by blast
  let ?outs = "outs @ [(stat, cs)]"
  have l: "length ?outs = length (xs @ [x])"
    using len by simp
  have st: "\<exists>sk sk' d1.
           ingest e source n (take k (xs @ [x])) st = Inr sk
         \<and> add_or_update_property (db_fault e (n + k)) (clock e (n + k)) (bs_db sk)
              ((bs_heap sk ((xs @ [x]) ! k))\<lparr> l_source := Some source \<rparr>) = Inr (d1, ?outs ! k)
         \<and> ingest e source n (take (Suc k) (xs @ [x])) st = Inr sk'
         \<and> bs_heap sk' = (bs_heap sk)((xs @ [x]) ! k := (bs_heap sk ((xs @ [x]) ! k))\<lparr> l_source := Some source,
              l_other := (if fst (?outs ! k) = SUpdated \<and> snd (?outs ! k) \<noteq> []
                          then AList.update ''changes'' (changes_val (snd (?outs ! k)))
                                 (l_other (bs_heap sk ((xs @ [x]) ! k)))
                          else l_other (bs_heap sk ((xs @ [x]) ! k))) \<rparr>)"
    if k: "k < length (xs @ [x])" for k
  proof (cases "k < length xs")
    case True
    then have eqs: "take k (xs @ [x]) = take k xs" "take (Suc k) (xs @ [x]) = take (Suc k) xs"
      "(xs @ [x]) ! k = xs ! k" "?outs ! k = outs ! k"
      using len by (simp_all add: nth_append)
    show ?thesis
      unfolding eqs using steps True by blast
  next
    case False
    with k have keq: "k = length xs" by simp
    then have eqs: "take k (xs @ [x]) = xs" "take (Suc k) (xs @ [x]) = xs @ [x]"
      "(xs @ [x]) ! k = x" "?outs ! k = (stat, cs)"
      using len by (simp_all add: nth_append)
    show ?thesis
      unfolding eqs fst_conv snd_conv using s1 snoc.prems u heap2 keq by blast
  qed
  have n: "bs_new st' = bs_new st @
           map fst (filter (\<lambda>(a, stat, cs). stat = SNew) (zip (xs @ [x]) ?outs))"
    using new1 new2 len by simp
  have up: "bs_updated st' = bs_updated st @
           map fst (filter (\<lambda>(a, stat, cs). stat = SUpdated \<and> cs \<noteq> []) (zip (xs @ [x]) ?outs))"
    using upd1 upd2 len by simp
  from l st n up show ?case
    by blast
qed

text \<open>
  C9. When \<open>process_listings\<close> returns, there is for each listing of the batch the outcome
  (status and changes) that the store returned for it, in the state the earlier listings
  left, and: the body of the loop writes the \<open>source\<close> key into the listing object and,
  when the outcome is \<open>updated\<close> with changes, the \<open>changes\<close> key holding exactly those
  changes; an object that is not listed again keeps that content to the end. The \<open>new\<close>
  list is exactly the addresses of the listings whose outcome is \<open>new\<close>, the \<open>updated\<close>
  list exactly those whose outcome is \<open>updated\<close> with changes, both in the order of the
  batch: the caller's own objects, not copies. Every object of the batch carries the
  source, every object in \<open>updated\<close> a non-empty \<open>changes\<close> list, and no object outside
  the batch is touched.
\<close>

theorem C9_inputs_mutated_and_returned:
  assumes "process_listings e h d listings source = Inr (h', d', res)"
  shows "\<exists>outs. length outs = length listings
     \<and> (\<forall>k<length listings. \<exists>sk sk' d1.
           ingest e source 0 (take k listings) (init_state h d) = Inr sk
         \<and> add_or_update_property (db_fault e k) (clock e k) (bs_db sk)
              ((bs_heap sk (listings ! k))\<lparr> l_source := Some source \<rparr>) = Inr (d1, outs ! k)
         \<and> ingest e source 0 (take (Suc k) listings) (init_state h d) = Inr sk'
         \<and> bs_heap sk' = (bs_heap sk)(listings ! k := (bs_heap sk (listings ! k))\<lparr> l_source := Some source,
              l_other := (if fst (outs ! k) = SUpdated \<and> snd (outs ! k) \<noteq> []
                          then AList.update ''changes'' (changes_val (snd (outs ! k)))
                                 (l_other (bs_heap sk (listings ! k)))
                          else l_other (bs_heap sk (listings ! k))) \<rparr>)
         \<and> (listings ! k \<notin> set (drop (Suc k) listings) \<longrightarrow>
               h' (listings ! k) = bs_heap sk' (listings ! k)))
     \<and> r_new res = map fst (filter (\<lambda>(a, stat, cs). stat = SNew) (zip listings outs))
     \<and> r_updated res =
         map fst (filter (\<lambda>(a, stat, cs). stat = SUpdated \<and> cs \<noteq> []) (zip listings outs))
     \<and> (\<forall>a\<in>set listings. l_source (h' a) = Some source)
     \<and> (\<forall>a\<in>set (r_updated res). \<exists>cs. cs \<noteq> [] \<and>
           map_of (l_other (h' a)) ''changes'' = Some (changes_val cs))
     \<and> subseq (r_new res) listings \<and> subseq (r_updated res) listings
     \<and> (\<forall>b. b \<notin> set listings \<longrightarrow> h' b = h b)"
proof -
  from process_listings_Inr[OF assms] obtain st where
    st: "ingest e source 0 listings (init_state h d) = Inr st" and h': "h' = bs_heap st"
    and n: "r_new res = bs_new st" and u: "r_updated res = bs_updated st"
    by blast
  from ingest_outcomes[OF st] obtain outs where
    len: "length outs = length listings"
    and steps: "\<forall>k<length listings. \<exists>sk sk' d1.
           ingest e source 0 (take k listings) (init_state h d) = Inr sk
         \<and> add_or_update_property (db_fault e (0 + k)) (clock e (0 + k)) (bs_db sk)
              ((bs_heap sk (listings ! k))\<lparr> l_source := Some source \<rparr>) = Inr (d1, outs ! k)
         \<and> ingest e source 0 (take (Suc k) listings) (init_state h d) = Inr sk'
         \<and> bs_heap sk' = (bs_heap sk)(listings ! k := (bs_heap sk (listings ! k))\<lparr> l_source := Some source,
              l_other := (if fst (outs ! k) = SUpdated \<and> snd (outs ! k) \<noteq> []
                          then AList.update ''changes'' (changes_val (snd (outs ! k)))
                                 (l_other (bs_heap sk (listings ! k)))
                          else l_other (bs_heap sk (listings ! k))) \<rparr>)"
    and new: "bs_new st = bs_new (init_state h d) @
           map fst (filter (\<lambda>(a, stat, cs). stat = SNew) (zip listings outs))"
    and upd: "bs_updated st = bs_updated (init_state h d) @
           map fst (filter (\<lambda>(a, stat, cs). stat = SUpdated \<and> cs \<noteq> []) (zip listings outs))"
    by blast
  have last: "h' (listings ! k) = bs_heap sk' (listings ! k)"
    if "ingest e source 0 (take (Suc k) listings) (init_state h d) = Inr sk'"
      and "listings ! k \<notin> set (drop (Suc k) listings)" for k sk'
  proof -
    have "ingest e source 0 (take (Suc k) listings @ drop (Suc k) listings) (init_state h d) = Inr st"
      using st by simp
    then have "ingest e source (0 + length (take (Suc k) listings)) (drop (Suc k) listings) sk' = Inr st"
      unfolding ingest_append using that(1) by simp
    from ingest_frame[OF this that(2)] h' show ?thesis by simp
  qed
  have per: "\<forall>k<length listings. \<exists>sk sk' d1.
           ingest e source 0 (take k listings) (init_state h d) = Inr sk
         \<and> add_or_update_property (db_fault e k) (clock e k) (bs_db sk)
              ((bs_heap sk (listings ! k))\<lparr> l_source := Some source \<rparr>) = Inr (d1, outs ! k)
         \<and> ingest e source 0 (take (Suc k) listings) (init_state h d) = Inr sk'
         \<and> bs_heap sk' = (bs_heap sk)(listings ! k := (bs_heap sk (listings ! k))\<lparr> l_source := Some source,
              l_other := (if fst (outs ! k) = SUpdated \<and> snd (outs ! k) \<noteq> []
                          then AList.update ''changes'' (changes_val (snd (outs ! k)))
                                 (l_other (bs_heap sk (listings ! k)))
                          else l_other (bs_heap sk (listings ! k))) \<rparr>)
         \<and> (listings ! k \<notin> set (drop (Suc k) listings) \<longrightarrow>
               h' (listings ! k) = bs_heap sk' (listings ! k))"
  proof (intro allI impI)
    fix k assume "k < length listings"
    with steps obtain sk sk' d1 where
      a: "ingest e source 0 (take k listings) (init_state h d) = Inr sk"
      and b: "add_or_update_property (db_fault e (0 + k)) (clock e (0 + k)) (bs_db sk)
              ((bs_heap sk (listings ! k))\<lparr> l_source := Some source \<rparr>) = Inr (d1, outs ! k)"
      and c: "ingest e source 0 (take (Suc k) listings) (init_state h d) = Inr sk'"
      and dd: "bs_heap sk' = (bs_heap sk)(listings ! k := (bs_heap sk (listings ! k))\<lparr> l_source := Some source,
              l_other := (if fst (outs ! k) = SUpdated \<and> snd (outs ! k) \<noteq> []
                          then AList.update ''changes'' (changes_val (snd (outs ! k)))
                                 (l_other (bs_heap sk (listings ! k)))
                          else l_other (bs_heap sk (listings ! k))) \<rparr>)"
      by blast
    from b have b': "add_or_update_property (db_fault e k) (clock e k) (bs_db sk)
              ((bs_heap sk (listings ! k))\<lparr> l_source := Some source \<rparr>) = Inr (d1, outs ! k)"
      by simp
    from a b' c dd last[OF c]
    show "\<exists>sk sk' d1.
           ingest e source 0 (take k listings) (init_state h d) = Inr sk
         \<and> add_or_update_property (db_fault e k) (clock e k) (bs_db sk)
              ((bs_heap sk (listings ! k))\<lparr> l_source := Some source \<rparr>) = Inr (d1, outs ! k)
         \<and> ingest e source 0 (take (Suc k) listings) (init_state h d) = Inr sk'
         \<and> bs_heap sk' = (bs_heap sk)(listings ! k := (bs_heap sk (listings ! k))\<lparr> l_source := Some source,
              l_other := (if fst (outs ! k) = SUpdated \<and> snd (outs ! k) \<noteq> []
                          then AList.update ''changes'' (changes_val (snd (outs ! k)))
                                 (l_other (bs_heap sk (listings ! k)))
                          else l_other (bs_heap sk (listings ! k))) \<rparr>)
         \<and> (listings ! k \<notin> set (drop (Suc k) listings) \<longrightarrow>
               h' (listings ! k) = bs_heap sk' (listings ! k))"
      by blast
  qed
  have rn: "r_new res = map fst (filter (\<lambda>(a, stat, cs). stat = SNew) (zip listings outs))"
    using new n by (simp add: init_state_def)
  have ru: "r_updated res =
         map fst (filter (\<lambda>(a, stat, cs). stat = SUpdated \<and> cs \<noteq> []) (zip listings outs))"
    using upd u by (simp add: init_state_def)
  have src: "\<forall>a\<in>set listings. l_source (h' a) = Some source"
    using ingest_source[OF st] h' by simp
  have key: "\<forall>a\<in>set (r_updated res). \<exists>cs. cs \<noteq> [] \<and>
             map_of (l_other (h' a)) ''changes'' = Some (changes_val cs)"
    using ingest_changes_key[OF st] h' u by (simp add: init_state_def)
  have sub: "subseq (r_new res) listings \<and> subseq (r_updated res) listings"
    using ingest_lists[OF st] n u by (auto simp: init_state_def)
  have frame: "\<forall>b. b \<notin> set listings \<longrightarrow> h' b = h b"
    using ingest_frame[OF st] h' by (simp add: init_state_def)
  from len per rn ru src key sub frame show ?thesis
    by blast
qed

lemma ex_batch_lists:
  "r_new (snd (snd (projr (process_listings ex_env ex_heap_batch ex_db [0, 1] ''test_source'')))) = [1]
   \<and> r_updated (snd (snd (projr (process_listings ex_env ex_heap_batch ex_db [0, 1] ''test_source'')))) = [0]
   \<and> map_of (l_other (fst (projr (process_listings ex_env ex_heap_batch ex_db [0, 1] ''test_source'')) 0))
        ''changes'' =
       Some (changes_val [\<lparr> c_field = ''price'', c_old_value = IntS 180000, c_new_value = IntS 190000 \<rparr>])"
  unfolding process_listings_def ingest.simps ex_batch_step0
  by (simp add: process_one_def ex_env_def ex_heap_batch_def
      add_or_update_property_def insert_new_def ex_listing_def ex_db_def ex_row_def
      extra_of_def Let_def split: prod.splits)

lemma ex_batch_upsert0:
  "add_or_update_property False ''t2'' ex_db ((ex_heap_batch 0)\<lparr> l_source := Some ''test_source'' \<rparr>) =
     Inr (\<lparr> properties = [ex_row\<lparr> p_price := 190000, p_last_seen := ''t2'',
                                          p_last_updated := ''t2'' \<rparr>],
            property_history = property_history ex_db @
                       [changed_entry ''test_property_2'' ''t2''
                          \<lparr> c_field = ''price'', c_old_value = IntS 180000,
                            c_new_value = IntS 190000 \<rparr>] \<rparr>,
          SUpdated,
          [\<lparr> c_field = ''price'', c_old_value = IntS 180000, c_new_value = IntS 190000 \<rparr>])"
  by (simp add: ex_heap_batch_def add_or_update_property_def update_existing_def ex_listing_def
      ex_db_def ex_row_def extra_of_def core_fields_def listing_item_def existing_item_def
      update_where_id_def)

lemma ex_batch_upsert1:
  "fst (snd (projr (add_or_update_property False ''t2''
     \<lparr> properties = [ex_row\<lparr> p_price := 190000, p_last_seen := ''t2'', p_last_updated := ''t2'' \<rparr>],
       property_history = property_history ex_db @
                       [changed_entry ''test_property_2'' ''t2''
                          \<lparr> c_field = ''price'', c_old_value = IntS 180000,
                            c_new_value = IntS 190000 \<rparr>] \<rparr>
     ((ex_heap_batch 1)\<lparr> l_source := Some ''test_source'' \<rparr>)))) = SNew"
  by (simp add: ex_heap_batch_def add_or_update_property_def insert_new_def ex_listing_def
      ex_row_def extra_of_def)

text \<open>
  A batch of an updated and a new listing, neither with a \<open>source\<close> key when it comes in:
  object 1 is returned as new, object 0 as updated with its price change attached.
\<close>

theorem C9_inputs_mutated_witness:
  "r_new (snd (snd (projr (process_listings ex_env ex_heap_batch ex_db [0, 1] ''test_source'')))) = [1]
   \<and> r_updated (snd (snd (projr (process_listings ex_env ex_heap_batch ex_db [0, 1] ''test_source'')))) = [0]
   \<and> map_of (l_other (fst (projr (process_listings ex_env ex_heap_batch ex_db [0, 1] ''test_source'')) 0))
        ''changes'' =
       Some (changes_val [\<lparr> c_field = ''price'', c_old_value = IntS 180000, c_new_value = IntS 190000 \<rparr>])
   \<and> l_source (fst (projr (process_listings ex_env ex_heap_batch ex_db [0, 1] ''test_source'')) 0) =
       Some ''test_source''
   \<and> l_source (fst (projr (process_listings ex_env ex_heap_batch ex_db [0, 1] ''test_source'')) 1) =
       Some ''test_source''"
proof -
  let ?R = "process_listings ex_env ex_heap_batch ex_db [0, 1] ''test_source''"
  let ?c = "\<lparr> c_field = ''price'', c_old_value = IntS 180000, c_new_value = IntS 190000 \<rparr>"
  have "?R = Inr (fst (projr ?R), fst (snd (projr ?R)), snd (snd (projr ?R)))"
    using ex_batch_returns by (cases ?R) auto
  from C9_inputs_mutated_and_returned[OF this] obtain outs where
    len: "length outs = length [0::nat, 1]"
    and steps: "\<forall>k<length [0::nat, 1]. \<exists>sk sk' d1.
           ingest ex_env ''test_source'' 0 (take k [0::nat, 1]) (init_state ex_heap_batch ex_db) = Inr sk
         \<and> add_or_update_property (db_fault ex_env k) (clock ex_env k) (bs_db sk)
              ((bs_heap sk ([0::nat, 1] ! k))\<lparr> l_source := Some ''test_source'' \<rparr>) = Inr (d1, outs ! k)
         \<and> ingest ex_env ''test_source'' 0 (take (Suc k) [0::nat, 1]) (init_state ex_heap_batch ex_db) = Inr sk'
         \<and> bs_heap sk' = (bs_heap sk)([0::nat, 1] ! k := (bs_heap sk ([0::nat, 1] ! k))\<lparr> l_source := Some ''test_source'',
              l_other := (if fst (outs ! k) = SUpdated \<and> snd (outs ! k) \<noteq> []
                          then AList.update ''changes'' (changes_val (snd (outs ! k)))
                                 (l_other (bs_heap sk ([0::nat, 1] ! k)))
                          else l_other (bs_heap sk ([0::nat, 1] ! k))) \<rparr>)
         \<and> ([0::nat, 1] ! k \<notin> set (drop (Suc k) [0::nat, 1]) \<longrightarrow>
               fst (projr ?R) ([0::nat, 1] ! k) = bs_heap sk' ([0::nat, 1] ! k))"
    and new: "r_new (snd (snd (projr ?R))) =
                map fst (filter (\<lambda>(a, stat, cs). stat = SNew) (zip [0::nat, 1] outs))"
    and upd: "r_updated (snd (snd (projr ?R))) =
                map fst (filter (\<lambda>(a, stat, cs). stat = SUpdated \<and> cs \<noteq> []) (zip [0::nat, 1] outs))"
    and src: "\<forall>a\<in>set [0::nat, 1]. l_source (fst (projr ?R) a) = Some ''test_source''"
    by (elim exE conjE) (rule that, assumption+)
  from len obtain o0 o1 where outs: "outs = [o0, o1]"
    by (cases outs; cases "tl outs") auto
  from steps[rule_format, of 0] have "\<exists>d1. add_or_update_property False ''t2'' ex_db
        ((ex_heap_batch 0)\<lparr> l_source := Some ''test_source'' \<rparr>) = Inr (d1, o0)"
    by (auto simp: outs init_state_def ex_env_def)
  then have o0: "o0 = (SUpdated, [?c])"
    unfolding ex_batch_upsert0 by auto
  from steps[rule_format, of 1] have "\<exists>d1. add_or_update_property False ''t2''
        (bs_db (projr (process_one ex_env ''test_source'' 0 (init_state ex_heap_batch ex_db) 0)))
        ((bs_heap (projr (process_one ex_env ''test_source'' 0 (init_state ex_heap_batch ex_db) 0)) 1)
            \<lparr> l_source := Some ''test_source'' \<rparr>) = Inr (d1, o1)"
    by (auto simp: outs ex_env_def split: sum.splits)
  then have "fst o1 = SNew"
    unfolding ex_batch_step0 using ex_batch_upsert1 by auto
  with o0 new upd outs have
    "r_new (snd (snd (projr ?R))) = [1] \<and> r_updated (snd (snd (projr ?R))) = [0]"
    by (cases o1) auto
  with src ex_batch_lists show ?thesis
    by simp
qed

end
